theory Spec2Isabelle
  imports Complex_Main "HOL-Library.Word"
begin

section \<open>Pixel buffers\<close>

text \<open>
  The program (\<^verbatim>\<open>src/main.py\<close>) works on Pillow images.  An image is modelled by its
  size and its pixel contents; an RGBA pixel is four bytes, an \<^verbatim>\<open>L\<close> pixel one byte.
  Only the pixels at coordinates inside the size belong to the image.

  The inputs are taken in the modes the docstrings ask for (base, texture, tile and
  \<^verbatim>\<open>img\<close> in RGBA, the mask in L), where \<^verbatim>\<open>convert\<close> is a plain copy.  Memory limits of
  the interpreter are not modelled.
\<close>

type_synonym byte = "8 word"

datatype pixel = RGBA (chan_r: byte) (chan_g: byte) (chan_b: byte) (chan_a: byte)

record 'p image =
  width :: nat
  height :: nat
  px :: "nat \<Rightarrow> nat \<Rightarrow> 'p"

datatype error =
    ImagesDoNotMatch  \<comment> \<open>\<^verbatim>\<open>ValueError("images do not match")\<close>\<close>
  | BadSize           \<comment> \<open>\<^verbatim>\<open>ValueError("height and width must be > 0")\<close>\<close>
  | EmptyRange        \<comment> \<open>\<^verbatim>\<open>ValueError("empty range for randrange()")\<close>\<close>

definition and_then :: "error + 'a \<Rightarrow> ('a \<Rightarrow> error + 'b) \<Rightarrow> error + 'b" where
  "and_then m f = (case m of Inl e \<Rightarrow> Inl e | Inr v \<Rightarrow> f v)"

definition same_size :: "'p image \<Rightarrow> 'q image \<Rightarrow> bool" where
  "same_size a b \<longleftrightarrow> width a = width b \<and> height a = height b"

section \<open>The Pillow primitives the program calls\<close>

text \<open>
  What the resampling, rotation, brightness, smoothing and floating-point steps compute
  is left open: they are fields of an environment, and every theorem holds for every
  environment.  What Pillow fixes about their results (the size) is in the definitions.
\<close>

record pil =
  resample_rgba :: "pixel image \<Rightarrow> nat \<Rightarrow> nat \<Rightarrow> nat \<Rightarrow> nat \<Rightarrow> pixel"
  resample_l :: "byte image \<Rightarrow> nat \<Rightarrow> nat \<Rightarrow> nat \<Rightarrow> nat \<Rightarrow> byte"
  darken :: "byte \<Rightarrow> byte"
  float_mul :: "nat \<Rightarrow> real \<Rightarrow> real"
  rotate_expand :: "nat \<Rightarrow> pixel image \<Rightarrow> pixel image"
  smooth_kernel :: "byte image \<Rightarrow> nat \<Rightarrow> nat \<Rightarrow> byte"

text \<open>\<^verbatim>\<open>Image.new(mode, size, color)\<close>: every pixel is the fill colour.\<close>

definition Image_new :: "nat \<Rightarrow> nat \<Rightarrow> 'p \<Rightarrow> 'p image" where
  "Image_new w h c = \<lparr>width = w, height = h, px = (\<lambda>x y. c)\<rparr>"

text \<open>\<^verbatim>\<open>im.getchannel(3)\<close> and \<^verbatim>\<open>im.split()[3]\<close>: the alpha band as an L image.\<close>

definition getchannel_a :: "pixel image \<Rightarrow> byte image" where
  "getchannel_a im = \<lparr>width = width im, height = height im, px = (\<lambda>x y. chan_a (px im x y))\<rparr>"

text \<open>\<^verbatim>\<open>im.point(table)\<close> on an L image, the table already rounded and clipped to bytes.\<close>

definition point :: "(byte \<Rightarrow> byte) \<Rightarrow> byte image \<Rightarrow> byte image" where
  "point lut im = \<lparr>width = width im, height = height im, px = (\<lambda>x y. lut (px im x y))\<rparr>"

definition set_alpha :: "pixel \<Rightarrow> byte \<Rightarrow> pixel" where
  "set_alpha p v = RGBA (chan_r p) (chan_g p) (chan_b p) v"

text \<open>\<^verbatim>\<open>im.putalpha(band)\<close>: replaces the alpha band; the band must have the image's size.\<close>

definition putalpha :: "pixel image \<Rightarrow> byte image \<Rightarrow> error + pixel image" where
  "putalpha im band =
     (if same_size im band
      then Inr (im\<lparr>px := (\<lambda>x y. set_alpha (px im x y) (px band x y))\<rparr>)
      else Inl ImagesDoNotMatch)"

text \<open>
  The blend of \<^verbatim>\<open>Paste.c\<close>: \<^verbatim>\<open>BLEND(mask, in1, in2) = DIV255(in1 * (255 - mask) + in2 * mask)\<close>
  with \<^verbatim>\<open>DIV255(a) = (tmp = a + 128, ((tmp >> 8) + tmp) >> 8)\<close>, stored in a byte.
\<close>

definition DIV255 :: "nat \<Rightarrow> nat" where
  "DIV255 a = (let tmp = a + 128 in ((tmp div 256) + tmp) div 256)"

definition BLEND :: "byte \<Rightarrow> byte \<Rightarrow> byte \<Rightarrow> byte" where
  "BLEND m in1 in2 = of_nat (DIV255 (unat in1 * (255 - unat m) + unat in2 * unat m))"

definition blend_pixel :: "byte \<Rightarrow> pixel \<Rightarrow> pixel \<Rightarrow> pixel" where
  "blend_pixel m p q =
     RGBA (BLEND m (chan_r p) (chan_r q)) (BLEND m (chan_g p) (chan_g q))
          (BLEND m (chan_b p) (chan_b q)) (BLEND m (chan_a p) (chan_a q))"

text \<open>
  \<^verbatim>\<open>dst.paste(src, (dx, dy))\<close> and \<^verbatim>\<open>dst.paste(src, (dx, dy), mask)\<close>.  The box is the
  source's size placed at the offset and is clipped to the destination: a destination
  pixel changes only if it lies in the box, and then comes from the source pixel at the
  same place of the box.  The destination keeps its size.
\<close>

definition in_box :: "'p image \<Rightarrow> 'q image \<Rightarrow> int \<times> int \<Rightarrow> nat \<Rightarrow> nat \<Rightarrow> bool" where
  "in_box dst src off x y \<longleftrightarrow>
     x < width dst \<and> y < height dst \<and>
     fst off \<le> int x \<and> int x < fst off + int (width src) \<and>
     snd off \<le> int y \<and> int y < snd off + int (height src)"

definition paste :: "'p image \<Rightarrow> 'p image \<Rightarrow> int \<times> int \<Rightarrow> 'p image" where
  "paste dst src off =
     dst\<lparr>px := (\<lambda>x y. if in_box dst src off x y
                       then px src (nat (int x - fst off)) (nat (int y - snd off))
                       else px dst x y)\<rparr>"

definition paste_mask ::
  "(byte \<Rightarrow> 'p \<Rightarrow> 'p \<Rightarrow> 'p) \<Rightarrow> 'p image \<Rightarrow> 'p image \<Rightarrow> int \<times> int \<Rightarrow> byte image \<Rightarrow> error + 'p image"
where
  "paste_mask bl dst src off msk =
     (if same_size src msk
      then Inr (dst\<lparr>px := (\<lambda>x y. if in_box dst src off x y
                       then bl (px msk (nat (int x - fst off)) (nat (int y - snd off)))
                               (px dst x y)
                               (px src (nat (int x - fst off)) (nat (int y - snd off)))
                       else px dst x y)\<rparr>)
      else Inl ImagesDoNotMatch)"

text \<open>
  \<^verbatim>\<open>ImageFilter.MaxFilter(size)\<close>, for an odd size (the only ones the program passes): the
  image is expanded by \<^verbatim>\<open>size // 2\<close> on every side by repeating its edge pixels, and
  each output pixel is the maximum of the window around it.  \<^verbatim>\<open>ImageFilter.SMOOTH\<close> is a
  3x3 kernel computed in floating point; both keep the size.
\<close>

definition edge_coord :: "nat \<Rightarrow> int \<Rightarrow> nat" where
  "edge_coord n i = (if i < 0 then 0 else if int n \<le> i then n - 1 else nat i)"

definition MaxFilter :: "nat \<Rightarrow> byte image \<Rightarrow> byte image" where
  "MaxFilter filter_size im =
     (let r = int (filter_size div 2)
      in im\<lparr>px := (\<lambda>x y. fold max
           (concat (map (\<lambda>j. map (\<lambda>i. px im (edge_coord (width im) (int x + i))
                                               (edge_coord (height im) (int y + j)))
                                    [- r .. r]) [- r .. r])) 0)\<rparr>)"

definition SMOOTH :: "pil \<Rightarrow> byte image \<Rightarrow> byte image" where
  "SMOOTH P im = im\<lparr>px := smooth_kernel P im\<rparr>"

text \<open>
  \<^verbatim>\<open>im.resize(size)\<close>: a request for the image's own size returns a copy; otherwise both
  sides must be at least 1, and the result has the requested size.
\<close>

definition size_of :: "'p image \<Rightarrow> int \<times> int" where
  "size_of im = (int (width im), int (height im))"

definition resize ::
  "('p image \<Rightarrow> nat \<Rightarrow> nat \<Rightarrow> nat \<Rightarrow> nat \<Rightarrow> 'p) \<Rightarrow> 'p image \<Rightarrow> int \<times> int \<Rightarrow> error + 'p image"
where
  "resize resample im sz =
     (if size_of im = sz then Inr im
      else if fst sz < 1 \<or> snd sz < 1 then Inl BadSize
      else Inr \<lparr>width = nat (fst sz), height = nat (snd sz),
                px = resample im (nat (fst sz)) (nat (snd sz))\<rparr>)"

text \<open>
  \<^verbatim>\<open>ImageEnhance.Brightness(im).enhance(0.7)\<close> blends a black image that carries the
  image's own alpha band with the image: the colour bands are darkened (in floating
  point), the alpha band is blended with itself and stays as it is.
\<close>

definition Brightness_enhance :: "pil \<Rightarrow> pixel image \<Rightarrow> pixel image" where
  "Brightness_enhance P im =
     im\<lparr>px := (\<lambda>x y. RGBA (darken P (chan_r (px im x y))) (darken P (chan_g (px im x y)))
                           (darken P (chan_b (px im x y))) (chan_a (px im x y)))\<rparr>"

text \<open>
  The table of \<^verbatim>\<open>point(lambda p: p * alpha)\<close>: Pillow evaluates the function at
  \<^verbatim>\<open>0 .. 255\<close>, rounds each value with Python's \<^verbatim>\<open>round\<close> (ties to even) and clips it
  to a byte.  \<^const>\<open>float_mul\<close> is the floating-point product.
\<close>

definition py_round :: "real \<Rightarrow> int" where
  "py_round v =
     (let f = \<lfloor>v\<rfloor>; d = v - of_int f
      in if d < 1 / 2 then f else if 1 / 2 < d then f + 1 else if even f then f else f + 1)"

definition CLIP8 :: "int \<Rightarrow> byte" where
  "CLIP8 v = (if v \<le> 0 then 0 else if v < 256 then of_int v else 255)"

definition scale_alpha :: "pil \<Rightarrow> real \<Rightarrow> byte \<Rightarrow> byte" where
  "scale_alpha P alpha p = CLIP8 (py_round (float_mul P (unat p) alpha))"

text \<open>
  \<^verbatim>\<open>Image.composite(image1, image2, mask)\<close> copies \<^verbatim>\<open>image2\<close> and pastes \<^verbatim>\<open>image1\<close> into
  it at the origin through the mask.
\<close>

definition composite :: "pixel image \<Rightarrow> pixel image \<Rightarrow> byte image \<Rightarrow> error + pixel image" where
  "composite image1 image2 msk = paste_mask blend_pixel image2 image1 (0, 0) msk"

text \<open>
  \<^verbatim>\<open>Image.alpha_composite(dst, src)\<close> (\<^verbatim>\<open>AlphaComposite.c\<close>): a source pixel with alpha 0
  leaves the destination pixel; otherwise the two are mixed in integer arithmetic with
  7 bits of extra precision.  No intermediate value exceeds 32 bits.
\<close>

definition SHIFTFORDIV255 :: "nat \<Rightarrow> nat" where
  "SHIFTFORDIV255 a = ((a div 256) + a) div 256"

definition over_channel :: "nat \<Rightarrow> nat \<Rightarrow> byte \<Rightarrow> byte \<Rightarrow> byte" where
  "over_channel coef1 coef2 s d =
     of_nat (SHIFTFORDIV255 (unat s * coef1 + unat d * coef2 + 128 * 128) div 128)"

definition over_pixel :: "pixel \<Rightarrow> pixel \<Rightarrow> pixel" where
  "over_pixel dst src =
     (if chan_a src = 0 then dst
      else
        let blend = unat (chan_a dst) * (255 - unat (chan_a src));
            outa255 = unat (chan_a src) * 255 + blend;
            coef1 = unat (chan_a src) * 255 * 255 * 128 div outa255;
            coef2 = 255 * 128 - coef1
        in RGBA (over_channel coef1 coef2 (chan_r src) (chan_r dst))
                (over_channel coef1 coef2 (chan_g src) (chan_g dst))
                (over_channel coef1 coef2 (chan_b src) (chan_b dst))
                (of_nat (SHIFTFORDIV255 (outa255 + 128))))"

definition alpha_composite :: "pixel image \<Rightarrow> pixel image \<Rightarrow> error + pixel image" where
  "alpha_composite dst src =
     (if same_size dst src
      then Inr (dst\<lparr>px := (\<lambda>x y. over_pixel (px dst x y) (px src x y))\<rparr>)
      else Inl ImagesDoNotMatch)"

text \<open>
  The outside world of the program: the files it writes (\<^verbatim>\<open>im.save(path)\<close>) and the lines
  it prints.  Saving is taken to succeed: encoders and the file system are not modelled.
\<close>

record world =
  files :: "string \<rightharpoonup> pixel image"
  stdout :: "string list"

definition save :: "pixel image \<Rightarrow> string \<Rightarrow> world \<Rightarrow> world" where
  "save im path w = w\<lparr>files := (files w)(path \<mapsto> im)\<rparr>"

definition print :: "string \<Rightarrow> world \<Rightarrow> world" where
  "print line w = w\<lparr>stdout := stdout w @ [line]\<rparr>"

definition texture_message :: "string \<Rightarrow> string" where
  "texture_message output_path = ''Texture applied to the sock and saved to '' @ output_path"

definition pattern_message :: "string \<Rightarrow> string" where
  "pattern_message output_path = ''Pattern applied to the sock and saved to '' @ output_path"

section \<open>\<^verbatim>\<open>apply_texture\<close>\<close>

definition transparent :: pixel where
  "transparent = RGBA 0 0 0 0"

text \<open>The brightness and alpha adjustment of the resized texture (lines 22 to 27).\<close>

definition adjust_texture :: "pil \<Rightarrow> pixel image \<Rightarrow> real \<Rightarrow> error + pixel image" where
  "adjust_texture P texture alpha =
     (let texture = Brightness_enhance P texture;
          texture_alpha = point (scale_alpha P alpha) (getchannel_a texture)
      in putalpha texture texture_alpha)"

definition apply_texture ::
  "pil \<Rightarrow> pixel image \<Rightarrow> pixel image \<Rightarrow> byte image \<Rightarrow> string \<Rightarrow> real \<Rightarrow> world
     \<Rightarrow> error + (pixel image \<times> world)"
where
  "apply_texture P base_image texture_image mask_image output_path alpha w =
     (let base = base_image in
      and_then (resize (resample_rgba P) texture_image (size_of base)) (\<lambda>texture.
      and_then (resize (resample_l P) mask_image (size_of base)) (\<lambda>msk.
      and_then (adjust_texture P texture alpha) (\<lambda>texture.
      and_then (composite texture (Image_new (width base) (height base) transparent) msk)
        (\<lambda>textured_layer.
      and_then (alpha_composite base textured_layer) (\<lambda>textured.
      let w = save textured output_path w;
          w = print (texture_message output_path) w
      in Inr (textured, w)))))))"

section \<open>\<^verbatim>\<open>border\<close>\<close>

text \<open>
  The stroke radius is a natural number: the function is documented for a thickness in
  pixels, and a negative radius is outside its contract.
\<close>

definition binarize :: "byte \<Rightarrow> byte" where
  "binarize x = (if x > 0 then 255 else 0)"

definition border :: "pil \<Rightarrow> pixel image \<Rightarrow> nat \<Rightarrow> pixel \<Rightarrow> error + pixel image" where
  "border P img stroke_radius color =
     (let new_w = width img + 2 * stroke_radius;
          new_h = height img + 2 * stroke_radius;
          stroke_image = Image_new new_w new_h color;
          img_alpha = point binarize (getchannel_a img);
          stroke_alpha = Image_new new_w new_h (0 :: byte);
          stroke_alpha = paste stroke_alpha img_alpha (int stroke_radius, int stroke_radius);
          filter_size = 2 * stroke_radius + 1;
          stroke_alpha = MaxFilter filter_size stroke_alpha;
          stroke_alpha = SMOOTH P stroke_alpha
      in and_then (putalpha stroke_image stroke_alpha) (\<lambda>stroke_image.
         paste_mask blend_pixel stroke_image img (int stroke_radius, int stroke_radius)
           (getchannel_a img)))"

section \<open>\<^verbatim>\<open>create_pattern\<close>\<close>

text \<open>
  The random source is the sequence of raw draws still to come.  \<^verbatim>\<open>random.uniform(0, 360)\<close>
  consumes one draw; the angle is named by that draw, and the rotation of the environment
  turns it into the rotated tile.  \<^verbatim>\<open>random.randint(a, b)\<close> raises on an empty range and
  otherwise consumes one draw and returns a value in \<open>a .. b\<close>.
\<close>

type_synonym rng = "nat \<Rightarrow> nat"

type_synonym angle = nat

definition rest :: "rng \<Rightarrow> rng" where
  "rest g = (\<lambda>n. g (Suc n))"

definition random_uniform :: "rng \<Rightarrow> angle \<times> rng" where
  "random_uniform g = (g 0, rest g)"

definition random_randint :: "int \<Rightarrow> int \<Rightarrow> rng \<Rightarrow> error + (int \<times> rng)" where
  "random_randint a b g =
     (if b < a then Inl EmptyRange else Inr (a + int (g 0 mod nat (b - a + 1)), rest g))"

text \<open>
  The state of the grid walk: the pattern layer, the random source, and (for the
  statements about the grid) the list of grid points visited so far.
\<close>

record walk =
  layer :: "pixel image"
  gen :: rng
  visited :: "(int \<times> int) list"

text \<open>The body of the inner loop up to the paste (lines 63 to 82).\<close>

definition stamp ::
  "pil \<Rightarrow> pixel image \<Rightarrow> real \<Rightarrow> int \<times> int \<Rightarrow> int \<Rightarrow> int \<Rightarrow> walk \<Rightarrow> error + walk"
where
  "stamp P pattern alpha base_size x y s =
     (let (random_angle, g) = random_uniform (gen s);
          pattern_with_alpha = pattern;
          pattern_alpha = point (scale_alpha P alpha) (getchannel_a pattern_with_alpha)
      in
      and_then (putalpha pattern_with_alpha pattern_alpha) (\<lambda>pattern_with_alpha.
      let rotated_pattern = rotate_expand P random_angle pattern_with_alpha;
          rotated_width = int (width rotated_pattern);
          rotated_height = int (height rotated_pattern);
          paste_x = x - rotated_width div 2;
          paste_y = y - rotated_height div 2;
          u = (if paste_x < 0 \<or> paste_y < 0 \<or> paste_x + rotated_width > fst base_size
                  \<or> paste_y + rotated_height > snd base_size
               then () else ())
      in
      and_then (paste_mask blend_pixel (layer s) rotated_pattern (paste_x, paste_y)
                  (getchannel_a rotated_pattern)) (\<lambda>pattern_layer.
      Inr (s\<lparr>layer := pattern_layer, gen := g, visited := visited s @ [(x, y)]\<rparr>))))"

text \<open>The same body with the boundary check taken out.\<close>

definition stamp_unchecked ::
  "pil \<Rightarrow> pixel image \<Rightarrow> real \<Rightarrow> int \<Rightarrow> int \<Rightarrow> walk \<Rightarrow> error + walk"
where
  "stamp_unchecked P pattern alpha x y s =
     (let (random_angle, g) = random_uniform (gen s);
          pattern_with_alpha = pattern;
          pattern_alpha = point (scale_alpha P alpha) (getchannel_a pattern_with_alpha)
      in
      and_then (putalpha pattern_with_alpha pattern_alpha) (\<lambda>pattern_with_alpha.
      let rotated_pattern = rotate_expand P random_angle pattern_with_alpha;
          rotated_width = int (width rotated_pattern);
          rotated_height = int (height rotated_pattern);
          paste_x = x - rotated_width div 2;
          paste_y = y - rotated_height div 2
      in
      and_then (paste_mask blend_pixel (layer s) rotated_pattern (paste_x, paste_y)
                  (getchannel_a rotated_pattern)) (\<lambda>pattern_layer.
      Inr (s\<lparr>layer := pattern_layer, gen := g, visited := visited s @ [(x, y)]\<rparr>))))"

record geometry =
  pattern_size :: "int \<times> int"
  base_spacing :: "int \<times> int"
  spacing_variation :: "int \<times> int"

text \<open>
  The two \<^verbatim>\<open>while\<close> loops.  They are partial: \<open>None\<close> is a walk that never ends,
  \<open>Some (Inl e)\<close> one that raises, \<open>Some (Inr s)\<close> one that completes.  The loop body is
  a parameter so that the walk with and without the boundary check are the same loops.
\<close>

partial_function (option) inner_loop ::
  "(int \<Rightarrow> int \<Rightarrow> walk \<Rightarrow> error + walk) \<Rightarrow> geometry \<Rightarrow> int \<times> int \<Rightarrow> int \<Rightarrow> int \<Rightarrow> walk
     \<Rightarrow> (error + walk) option"
where
  "inner_loop body geo base_size x y s =
     (if y < snd base_size then
        (case body x y s of
           Inl e \<Rightarrow> Some (Inl e)
         | Inr s \<Rightarrow>
            (case random_randint (- snd (spacing_variation geo)) (snd (spacing_variation geo)) (gen s) of
               Inl e \<Rightarrow> Some (Inl e)
             | Inr (r, g) \<Rightarrow>
                 let delta_y = snd (base_spacing geo) + r
                 in inner_loop body geo base_size x (y + (snd (pattern_size geo) + delta_y))
                      (s\<lparr>gen := g\<rparr>)))
      else Some (Inr s))"

partial_function (option) outer_loop ::
  "(int \<Rightarrow> int \<Rightarrow> walk \<Rightarrow> error + walk) \<Rightarrow> geometry \<Rightarrow> int \<times> int \<Rightarrow> int \<Rightarrow> walk
     \<Rightarrow> (error + walk) option"
where
  "outer_loop body geo base_size x s =
     (if x < fst base_size then
        (case inner_loop body geo base_size x 0 s of
           None \<Rightarrow> None
         | Some (Inl e) \<Rightarrow> Some (Inl e)
         | Some (Inr s) \<Rightarrow>
            (case random_randint (- fst (spacing_variation geo)) (fst (spacing_variation geo)) (gen s) of
               Inl e \<Rightarrow> Some (Inl e)
             | Inr (r, g) \<Rightarrow>
                 let delta_x = fst (base_spacing geo) + r
                 in outer_loop body geo base_size (x + (fst (pattern_size geo) + delta_x))
                      (s\<lparr>gen := g\<rparr>)))
      else Some (Inr s))"

text \<open>
  \<^verbatim>\<open>create_pattern\<close> around a given loop body: the set-up (lines 50 to 59), the walk, and
  the masking, compositing, saving and printing (lines 90 to 94).  It returns the
  combined image together with the final walk state and the world.
\<close>

definition pattern_pipeline ::
  "(pixel image \<Rightarrow> int \<times> int \<Rightarrow> int \<Rightarrow> int \<Rightarrow> walk \<Rightarrow> error + walk) \<Rightarrow>
   pil \<Rightarrow> pixel image \<Rightarrow> pixel image \<Rightarrow> byte image \<Rightarrow> string \<Rightarrow> geometry \<Rightarrow> rng \<Rightarrow> world
     \<Rightarrow> (error + (pixel image \<times> walk \<times> world)) option"
where
  "pattern_pipeline body P base_image pattern_image mask_image output_path geo g w =
     (let base = base_image in
      case resize (resample_rgba P) pattern_image (pattern_size geo) of
        Inl e \<Rightarrow> Some (Inl e)
      | Inr pattern \<Rightarrow>
     (case resize (resample_l P) mask_image (size_of base) of
        Inl e \<Rightarrow> Some (Inl e)
      | Inr msk \<Rightarrow>
      let pattern_layer = Image_new (width base) (height base) transparent
      in
     (case outer_loop (body pattern (size_of base)) geo (size_of base) 0
             \<lparr>layer = pattern_layer, gen = g, visited = []\<rparr> of
        None \<Rightarrow> None
      | Some (Inl e) \<Rightarrow> Some (Inl e)
      | Some (Inr s) \<Rightarrow>
          Some (and_then (composite (layer s) (Image_new (width base) (height base) transparent) msk)
            (\<lambda>patterned_layer.
          and_then (alpha_composite base patterned_layer) (\<lambda>combined.
          let w = save combined output_path w;
              w = print (pattern_message output_path) w
          in Inr (combined, s, w)))))))"

definition create_pattern ::
  "pil \<Rightarrow> pixel image \<Rightarrow> pixel image \<Rightarrow> byte image \<Rightarrow> string \<Rightarrow> geometry \<Rightarrow> real \<Rightarrow> rng \<Rightarrow> world
     \<Rightarrow> (error + (pixel image \<times> walk \<times> world)) option"
where
  "create_pattern P base_image pattern_image mask_image output_path geo alpha g w =
     pattern_pipeline (\<lambda>pattern base_size. stamp P pattern alpha base_size)
       P base_image pattern_image mask_image output_path geo g w"

text \<open>\<^verbatim>\<open>create_pattern\<close> with the boundary-check branch (lines 77 to 80) removed.\<close>

definition create_pattern_unchecked ::
  "pil \<Rightarrow> pixel image \<Rightarrow> pixel image \<Rightarrow> byte image \<Rightarrow> string \<Rightarrow> geometry \<Rightarrow> real \<Rightarrow> rng \<Rightarrow> world
     \<Rightarrow> (error + (pixel image \<times> walk \<times> world)) option"
where
  "create_pattern_unchecked P base_image pattern_image mask_image output_path geo alpha g w =
     pattern_pipeline (\<lambda>pattern base_size. stamp_unchecked P pattern alpha)
       P base_image pattern_image mask_image output_path geo g w"

section \<open>Auxiliary notions and concrete inputs\<close>

text \<open>
  The pixel that \<^verbatim>\<open>Image.composite(a, transparent, m)\<close> holds at a position of a
  base-sized canvas.
\<close>

definition masked_layer_px :: "'p image \<Rightarrow> pixel image \<Rightarrow> byte image \<Rightarrow> nat \<Rightarrow> nat \<Rightarrow> pixel" where
  "masked_layer_px base a m x y =
     (if x < width base \<and> y < height base
      then blend_pixel (px m x y) transparent (px a x y) else transparent)"

text \<open>
  An environment for concrete runs: resampling repeats the pixel at the origin, brightness
  and smoothing change nothing, the rotation angle is always 0 (Pillow then returns a
  copy), and the floating-point product is exact (as it is for the arguments used below).
\<close>

definition pil_plain :: pil where
  "pil_plain =
     \<lparr>resample_rgba = (\<lambda>im w h x y. px im 0 0), resample_l = (\<lambda>im w h x y. px im 0 0),
      darken = (\<lambda>v. v), float_mul = (\<lambda>n a. real n * a),
      rotate_expand = (\<lambda>a im. im), smooth_kernel = px\<rparr>"

definition dot :: "'p \<Rightarrow> 'p image" where
  "dot c = Image_new 1 1 c"

definition empty_world :: world where
  "empty_world = \<lparr>files = Map.empty, stdout = []\<rparr>"

definition zeros :: rng where
  "zeros = (\<lambda>n. 0)"

text \<open>The default geometry of \<^verbatim>\<open>create_pattern\<close>'s signature, and the one of the grid scenario.\<close>

definition default_geometry :: geometry where
  "default_geometry =
     \<lparr>pattern_size = (100, 100), base_spacing = (50, 50), spacing_variation = (10, 10)\<rparr>"

definition grid_geometry :: geometry where
  "grid_geometry =
     \<lparr>pattern_size = (100, 100), base_spacing = (50, 50), spacing_variation = (0, 0)\<rparr>"

section \<open>\<^verbatim>\<open>apply_texture\<close> on image objects\<close>

text \<open>
  To say that a call leaves its arguments alone, images are objects in a store: an address
  names an image, a Pillow call that returns a new image allocates an address, and
  \<^verbatim>\<open>putalpha\<close> and \<^verbatim>\<open>paste\<close> overwrite the object they are called on.  RGBA and L
  images have their own address spaces.
\<close>

record store =
  rgba_objs :: "nat \<Rightarrow> pixel image"
  l_objs :: "nat \<Rightarrow> byte image"
  rgba_next :: nat
  l_next :: nat

definition alloc_rgba :: "pixel image \<Rightarrow> store \<Rightarrow> nat \<times> store" where
  "alloc_rgba v st =
     (rgba_next st, st\<lparr>rgba_objs := (rgba_objs st)(rgba_next st := v), rgba_next := Suc (rgba_next st)\<rparr>)"

definition alloc_l :: "byte image \<Rightarrow> store \<Rightarrow> nat \<times> store" where
  "alloc_l v st =
     (l_next st, st\<lparr>l_objs := (l_objs st)(l_next st := v), l_next := Suc (l_next st)\<rparr>)"

definition put_rgba :: "nat \<Rightarrow> pixel image \<Rightarrow> store \<Rightarrow> store" where
  "put_rgba a v st = st\<lparr>rgba_objs := (rgba_objs st)(a := v)\<rparr>"

text \<open>
  Lines 17 to 19: \<^verbatim>\<open>convert\<close> and \<^verbatim>\<open>resize\<close> each return a new image.
\<close>

definition load_inputs ::
  "pil \<Rightarrow> nat \<Rightarrow> nat \<Rightarrow> nat \<Rightarrow> store \<Rightarrow> error + ((nat \<times> nat \<times> nat) \<times> store)"
where
  "load_inputs P base_image texture_image mask_image st =
     (let (base, st) = alloc_rgba (rgba_objs st base_image) st;
          (converted, st) = alloc_rgba (rgba_objs st texture_image) st
      in
      and_then (resize (resample_rgba P) (rgba_objs st converted) (size_of (rgba_objs st base)))
        (\<lambda>v.
      let (texture, st) = alloc_rgba v st;
          (converted, st) = alloc_l (l_objs st mask_image) st
      in
      and_then (resize (resample_l P) (l_objs st converted) (size_of (rgba_objs st base)))
        (\<lambda>v.
      let (msk, st) = alloc_l v st
      in Inr ((base, texture, msk), st))))"

text \<open>
  Lines 22 to 27: the enhancer returns a new image, \<^verbatim>\<open>split\<close> and \<^verbatim>\<open>point\<close> new bands,
  and \<^verbatim>\<open>putalpha\<close> writes into the enhanced image.
\<close>

definition adjust_texture_store :: "pil \<Rightarrow> nat \<Rightarrow> real \<Rightarrow> store \<Rightarrow> error + (nat \<times> store)" where
  "adjust_texture_store P texture alpha st =
     (let (texture, st) = alloc_rgba (Brightness_enhance P (rgba_objs st texture)) st;
          (band, st) = alloc_l (getchannel_a (rgba_objs st texture)) st;
          (texture_alpha, st) = alloc_l (point (scale_alpha P alpha) (l_objs st band)) st
      in
      and_then (putalpha (rgba_objs st texture) (l_objs st texture_alpha)) (\<lambda>v.
      Inr (texture, put_rgba texture v st)))"

text \<open>
  \<^verbatim>\<open>Image.composite\<close>: a copy of \<^verbatim>\<open>image2\<close> is allocated and \<^verbatim>\<open>image1\<close> is pasted into the
  copy.
\<close>

definition composite_store :: "nat \<Rightarrow> nat \<Rightarrow> nat \<Rightarrow> store \<Rightarrow> error + (nat \<times> store)" where
  "composite_store image1 image2 msk st =
     (let (canvas, st) = alloc_rgba (rgba_objs st image2) st
      in
      and_then (paste_mask blend_pixel (rgba_objs st canvas) (rgba_objs st image1) (0, 0)
                  (l_objs st msk)) (\<lambda>v.
      Inr (canvas, put_rgba canvas v st)))"

text \<open>The whole function, with the world it saves and prints to.\<close>

definition apply_texture_store ::
  "pil \<Rightarrow> nat \<Rightarrow> nat \<Rightarrow> nat \<Rightarrow> string \<Rightarrow> real \<Rightarrow> store \<times> world
     \<Rightarrow> error + (nat \<times> store \<times> world)"
where
  "apply_texture_store P base_image texture_image mask_image output_path alpha sw =
     (let (st, w) = sw in
      and_then (load_inputs P base_image texture_image mask_image st) (\<lambda>((base, texture, msk), st).
      and_then (adjust_texture_store P texture alpha st) (\<lambda>(texture, st).
      let (blank, st) = alloc_rgba (Image_new (width (rgba_objs st base)) (height (rgba_objs st base))
                                      transparent) st
      in
      and_then (composite_store texture blank msk st) (\<lambda>(textured_layer, st).
      and_then (alpha_composite (rgba_objs st base) (rgba_objs st textured_layer)) (\<lambda>v.
      let (textured, st) = alloc_rgba v st;
          w = save (rgba_objs st textured) output_path w;
          w = print (texture_message output_path) w
      in Inr (textured, st, w))))))"

text \<open>
  A store grows when its next addresses do not go down and every object that was
  allocated keeps its contents.
\<close>

definition grows :: "store \<Rightarrow> store \<Rightarrow> bool" where
  "grows st st' \<longleftrightarrow>
     rgba_next st \<le> rgba_next st' \<and> l_next st \<le> l_next st' \<and>
     (\<forall>a < rgba_next st. rgba_objs st' a = rgba_objs st a) \<and>
     (\<forall>a < l_next st. l_objs st' a = l_objs st a)"

text \<open>A store with two RGBA images and one L image, for concrete runs.\<close>

definition two_dots :: store where
  "two_dots =
     \<lparr>rgba_objs = (\<lambda>a. dot (RGBA 10 20 30 40)), l_objs = (\<lambda>a. dot 255),
      rgba_next = 2, l_next = 1\<rparr>"

section \<open>Basic facts\<close>

lemma and_then_Inr [simp]: "and_then (Inr v) f = f v"
  by (simp add: and_then_def)

lemma and_then_Inl [simp]: "and_then (Inl e) f = Inl e"
  by (simp add: and_then_def)

lemma same_size_getchannel_a [simp]: "same_size im (getchannel_a im)"
  by (simp add: same_size_def getchannel_a_def)

lemma DIV255_255: "x < 256 \<Longrightarrow> DIV255 (x * 255) = x"
proof -
  assume x: "x < 256"
  have a: "(x * 255 + 128) div 256 = (if x \<le> 128 then x else x - 1)"
    using x by (auto intro!: Euclidean_Rings.div_nat_eqI)
  have b: "((if x \<le> 128 then x else x - 1) + (x * 255 + 128)) div 256 = x"
    using x by (auto intro!: Euclidean_Rings.div_nat_eqI)
  show ?thesis unfolding DIV255_def Let_def a b ..
qed

lemma unat_byte_less: "unat (x :: byte) < 256"
  using unsigned_less [of x] by simp

lemma BLEND_0: "BLEND 0 x y = x"
  by (simp add: BLEND_def DIV255_255 unat_byte_less)

lemma BLEND_255: "BLEND 255 x y = y"
  by (simp add: BLEND_def DIV255_255 unat_byte_less)

lemma blend_pixel_0: "blend_pixel 0 p q = p"
  by (simp add: blend_pixel_def BLEND_0)

lemma blend_pixel_255: "blend_pixel 255 p q = q"
  by (simp add: blend_pixel_def BLEND_255)

lemma resize_size: "resize rs im sz = Inr out \<Longrightarrow> size_of out = sz"
  by (auto simp: resize_def size_of_def split: if_splits)

lemma resize_returns: "size_of im = sz \<or> (1 \<le> fst sz \<and> 1 \<le> snd sz) \<Longrightarrow> \<exists>out. resize rs im sz = Inr out"
  by (auto simp: resize_def)

lemma same_size_iff: "same_size a b \<longleftrightarrow> size_of a = size_of b"
  by (auto simp: same_size_def size_of_def)

section \<open>Facts about \<^verbatim>\<open>apply_texture\<close>\<close>

lemma adjust_texture_eq:
  "adjust_texture P t alpha =
     Inr (t\<lparr>px := (\<lambda>x y. RGBA (darken P (chan_r (px t x y))) (darken P (chan_g (px t x y)))
                              (darken P (chan_b (px t x y)))
                              (scale_alpha P alpha (chan_a (px t x y))))\<rparr>)"
  by (simp add: adjust_texture_def Let_def putalpha_def same_size_def point_def getchannel_a_def
      Brightness_enhance_def set_alpha_def)

lemma composite_transparent:
  assumes "size_of a = size_of base" "size_of m = size_of base"
  shows "composite a (Image_new (width base) (height base) transparent) m =
     Inr \<lparr>width = width base, height = height base, px = masked_layer_px base a m\<rparr>"
proof -
  from assms have wh: "width a = width base" "height a = height base"
      "width m = width base" "height m = height base"
    by (auto simp: size_of_def)
  show ?thesis
    by (simp add: composite_def paste_mask_def same_size_def wh Image_new_def in_box_def
        masked_layer_px_def fun_eq_iff)
qed

lemma masked_then_over_k:
  assumes "size_of a = size_of base" "size_of m = size_of base"
  shows "and_then (composite a (Image_new (width base) (height base) transparent) m)
           (\<lambda>l. and_then (alpha_composite base l) k) =
         k (base\<lparr>px := (\<lambda>x y. over_pixel (px base x y) (masked_layer_px base a m x y))\<rparr>)"
  by (simp add: composite_transparent[OF assms] alpha_composite_def same_size_def)

lemma adjust_texture_size:
  "adjust_texture P t alpha = Inr t' \<Longrightarrow> size_of t' = size_of t"
  by (auto simp: adjust_texture_eq size_of_def)

lemma adjust_texture_returns: "\<exists>t'. adjust_texture P t alpha = Inr t'"
  by (simp add: adjust_texture_eq)

lemma apply_texture_eq:
  assumes t: "resize (resample_rgba P) texture_image (size_of base) = Inr t"
    and m: "resize (resample_l P) mask_image (size_of base) = Inr m"
    and t': "adjust_texture P t alpha = Inr t'"
  shows "apply_texture P base texture_image mask_image path alpha w =
     Inr (base\<lparr>px := (\<lambda>x y. over_pixel (px base x y) (masked_layer_px base t' m x y))\<rparr>,
          print (texture_message path)
            (save (base\<lparr>px := (\<lambda>x y. over_pixel (px base x y) (masked_layer_px base t' m x y))\<rparr>)
               path w))"
proof -
  have st: "size_of t' = size_of base" and sm: "size_of m = size_of base"
    using resize_size[OF t] resize_size[OF m] adjust_texture_size[OF t'] by auto
  show ?thesis
    by (simp add: apply_texture_def t m t' masked_then_over_k[OF st sm] Let_def)
qed

lemma masked_layer_px_outside: "px m x y = 0 \<Longrightarrow> masked_layer_px base a m x y = transparent"
  by (simp add: masked_layer_px_def blend_pixel_0)

lemma over_pixel_transparent: "over_pixel d transparent = d"
  by (simp add: over_pixel_def transparent_def)

lemma apply_texture_cases:
  "apply_texture P base texture_image mask_image path alpha w = Inr (out, w') \<Longrightarrow>
   \<exists>t m t'. resize (resample_rgba P) texture_image (size_of base) = Inr t \<and>
     resize (resample_l P) mask_image (size_of base) = Inr m \<and>
     adjust_texture P t alpha = Inr t'"
  by (cases "resize (resample_rgba P) texture_image (size_of base)";
      cases "resize (resample_l P) mask_image (size_of base)")
     (auto simp: apply_texture_def adjust_texture_eq)

lemma apply_texture_returns:
  assumes "(0 < width base \<and> 0 < height base) \<or>
           (size_of texture_image = size_of base \<and> size_of mask_image = size_of base)"
  shows "\<exists>out w'. apply_texture P base texture_image mask_image path alpha w = Inr (out, w')"
proof -
  have a: "size_of texture_image = size_of base \<or> (1 \<le> fst (size_of base) \<and> 1 \<le> snd (size_of base))"
   and b: "size_of mask_image = size_of base \<or> (1 \<le> fst (size_of base) \<and> 1 \<le> snd (size_of base))"
    using assms by (auto simp: size_of_def)
  from resize_returns[OF a] obtain t where
    t: "resize (resample_rgba P) texture_image (size_of base) = Inr t" by blast
  from resize_returns[OF b] obtain m where
    m: "resize (resample_l P) mask_image (size_of base) = Inr m" by blast
  from adjust_texture_returns obtain t' where t': "adjust_texture P t alpha = Inr t'" by blast
  show ?thesis using apply_texture_eq[OF t m t'] by blast
qed

lemma apply_texture_size:
  assumes "apply_texture P base texture_image mask_image path alpha w = Inr (out, w')"
  shows "width out = width base \<and> height out = height base"
proof -
  from apply_texture_cases[OF assms] obtain t m t' where
    t: "resize (resample_rgba P) texture_image (size_of base) = Inr t"
    and m: "resize (resample_l P) mask_image (size_of base) = Inr m"
    and t': "adjust_texture P t alpha = Inr t'" by auto
  from apply_texture_eq[OF t m t', of path w] assms show ?thesis by auto
qed

section \<open>Facts about the grid walk\<close>

lemma random_randint_range:
  "random_randint a b g = Inr (r, g') \<Longrightarrow> a \<le> r \<and> r \<le> b \<and> g' = rest g"
proof -
  assume h: "random_randint a b g = Inr (r, g')"
  then have ab: "a \<le> b" and r: "r = a + int (g 0 mod nat (b - a + 1))" and g: "g' = rest g"
    by (auto simp: random_randint_def split: if_splits)
  have "g 0 mod nat (b - a + 1) < nat (b - a + 1)" using ab by (intro mod_less_divisor) simp
  then have "int (g 0 mod nat (b - a + 1)) < b - a + 1" using ab by linarith
  then show ?thesis using r g ab by simp
qed

lemma random_randint_returns:
  "a \<le> b \<Longrightarrow> \<exists>r. random_randint a b g = Inr (r, rest g)"
  by (simp add: random_randint_def)

lemma inner_loop_terminates:
  assumes step: "0 < snd (pattern_size geo) + snd (base_spacing geo) - snd (spacing_variation geo)"
  shows "inner_loop body geo bs x y s \<noteq> None"
proof (induction "nat (snd bs - y)" arbitrary: y s rule: less_induct)
  case less
  show ?case
  proof (cases "y < snd bs")
    case False
    then show ?thesis by (subst inner_loop.simps) simp
  next
    case True
    show ?thesis
    proof (cases "body x y s")
      case (Inl e)
      then show ?thesis using True by (subst inner_loop.simps) simp
    next
      case (Inr s1)
      show ?thesis
      proof (cases "random_randint (- snd (spacing_variation geo)) (snd (spacing_variation geo)) (gen s1)")
        case (Inl e)
        then show ?thesis using True Inr by (subst inner_loop.simps) simp
      next
        case r: (Inr rg)
        obtain r g where rg: "rg = (r, g)" by (cases rg)
        from random_randint_range[OF r[unfolded rg]] have "- snd (spacing_variation geo) \<le> r" by simp
        with step have pos: "0 < snd (pattern_size geo) + (snd (base_spacing geo) + r)" by simp
        with True have "nat (snd bs - (y + (snd (pattern_size geo) + (snd (base_spacing geo) + r)))) < nat (snd bs - y)"
          by simp
        from less[OF this] show ?thesis using True Inr r rg
          by (subst inner_loop.simps) (simp add: Let_def)
      qed
    qed
  qed
qed

lemma outer_loop_terminates:
  assumes stepx: "0 < fst (pattern_size geo) + fst (base_spacing geo) - fst (spacing_variation geo)"
    and stepy: "0 < snd (pattern_size geo) + snd (base_spacing geo) - snd (spacing_variation geo)"
  shows "outer_loop body geo bs x s \<noteq> None"
proof (induction "nat (fst bs - x)" arbitrary: x s rule: less_induct)
  case less
  show ?case
  proof (cases "x < fst bs")
    case False
    then show ?thesis by (subst outer_loop.simps) simp
  next
    case True
    from inner_loop_terminates[OF stepy] obtain res where
      res: "inner_loop body geo bs x 0 s = Some res" by blast
    show ?thesis
    proof (cases res)
      case (Inl e)
      then show ?thesis using True res by (subst outer_loop.simps) simp
    next
      case (Inr s1)
      show ?thesis
      proof (cases "random_randint (- fst (spacing_variation geo)) (fst (spacing_variation geo)) (gen s1)")
        case (Inl e)
        then show ?thesis using True Inr res by (subst outer_loop.simps) simp
      next
        case r: (Inr rg)
        obtain r g where rg: "rg = (r, g)" by (cases rg)
        from random_randint_range[OF r[unfolded rg]] have "- fst (spacing_variation geo) \<le> r" by simp
        with stepx have pos: "0 < fst (pattern_size geo) + (fst (base_spacing geo) + r)" by simp
        with True have "nat (fst bs - (x + (fst (pattern_size geo) + (fst (base_spacing geo) + r)))) < nat (fst bs - x)"
          by simp
        from less[OF this] show ?thesis using True Inr res r rg
          by (subst outer_loop.simps) (simp add: Let_def)
      qed
    qed
  qed
qed

lemma scaled_putalpha:
  "putalpha pattern (point lut (getchannel_a pattern)) =
     Inr (pattern\<lparr>px := (\<lambda>x y. set_alpha (px pattern x y) (lut (chan_a (px pattern x y))))\<rparr>)"
  by (simp add: putalpha_def same_size_def point_def getchannel_a_def)

lemma paste_mask_own_alpha:
  "\<exists>f. paste_mask bl dst src off (getchannel_a src) = Inr (dst\<lparr>px := f\<rparr>)"
  by (simp add: paste_mask_def) blast

lemma stamp_unchecked_Inr:
  "\<exists>l. stamp_unchecked P pattern alpha x y s =
          Inr (s\<lparr>layer := l, gen := rest (gen s), visited := visited s @ [(x, y)]\<rparr>) \<and>
       size_of l = size_of (layer s)"
proof -
  define rotated where "rotated = rotate_expand P (gen s 0)
    (pattern\<lparr>px := (\<lambda>x y. set_alpha (px pattern x y) (scale_alpha P alpha (chan_a (px pattern x y))))\<rparr>)"
  obtain f where f: "paste_mask blend_pixel (layer s) rotated
      (x - int (width rotated) div 2, y - int (height rotated) div 2) (getchannel_a rotated)
      = Inr ((layer s)\<lparr>px := f\<rparr>)"
    using paste_mask_own_alpha by blast
  have "stamp_unchecked P pattern alpha x y s =
      Inr (s\<lparr>layer := (layer s)\<lparr>px := f\<rparr>, gen := rest (gen s), visited := visited s @ [(x, y)]\<rparr>)"
    using f unfolding rotated_def
    by (simp add: stamp_unchecked_def random_uniform_def scaled_putalpha Let_def)
  then show ?thesis by (auto simp: size_of_def)
qed

lemma stamp_eq_unchecked: "stamp P pattern alpha bs x y s = stamp_unchecked P pattern alpha x y s"
  by (simp add: stamp_def stamp_unchecked_def Let_def split: prod.splits)

lemma stamp_Inr:
  "\<exists>l. stamp P pattern alpha bs x y s =
          Inr (s\<lparr>layer := l, gen := rest (gen s), visited := visited s @ [(x, y)]\<rparr>) \<and>
       size_of l = size_of (layer s)"
  unfolding stamp_eq_unchecked by (rule stamp_unchecked_Inr)

lemma inner_loop_returns:
  assumes body: "\<And>x y s. \<exists>s'. body x y s = Inr s' \<and> size_of (layer s') = size_of (layer s)"
    and v: "0 \<le> snd (spacing_variation geo)"
    and step: "0 < snd (pattern_size geo) + snd (base_spacing geo) - snd (spacing_variation geo)"
  shows "\<exists>s'. inner_loop body geo bs x y s = Some (Inr s') \<and> size_of (layer s') = size_of (layer s)"
proof (induction "nat (snd bs - y)" arbitrary: y s rule: less_induct)
  case less
  show ?case
  proof (cases "y < snd bs")
    case False
    then show ?thesis by (subst inner_loop.simps) simp
  next
    case True
    from body obtain s1 where s1: "body x y s = Inr s1" "size_of (layer s1) = size_of (layer s)"
      by blast
    from v random_randint_returns[of "- snd (spacing_variation geo)" "snd (spacing_variation geo)" "gen s1"]
    obtain r where r: "random_randint (- snd (spacing_variation geo)) (snd (spacing_variation geo)) (gen s1)
        = Inr (r, rest (gen s1))" by auto
    from random_randint_range[OF r] have "- snd (spacing_variation geo) \<le> r" by simp
    with step have pos: "0 < snd (pattern_size geo) + (snd (base_spacing geo) + r)" by simp
    with True have "nat (snd bs - (y + (snd (pattern_size geo) + (snd (base_spacing geo) + r)))) < nat (snd bs - y)"
      by simp
    from less[OF this, of "s1\<lparr>gen := rest (gen s1)\<rparr>"] show ?thesis using True s1 r
      by (subst inner_loop.simps) (simp add: Let_def)
  qed
qed

lemma outer_loop_returns:
  assumes body: "\<And>x y s. \<exists>s'. body x y s = Inr s' \<and> size_of (layer s') = size_of (layer s)"
    and vx: "0 \<le> fst (spacing_variation geo)"
    and vy: "0 \<le> snd (spacing_variation geo)"
    and stepx: "0 < fst (pattern_size geo) + fst (base_spacing geo) - fst (spacing_variation geo)"
    and stepy: "0 < snd (pattern_size geo) + snd (base_spacing geo) - snd (spacing_variation geo)"
  shows "\<exists>s'. outer_loop body geo bs x s = Some (Inr s') \<and> size_of (layer s') = size_of (layer s)"
proof (induction "nat (fst bs - x)" arbitrary: x s rule: less_induct)
  case less
  show ?case
  proof (cases "x < fst bs")
    case False
    then show ?thesis by (subst outer_loop.simps) simp
  next
    case True
    from inner_loop_returns[of body geo bs x 0 s, OF body vy stepy] obtain s1 where
      s1: "inner_loop body geo bs x 0 s = Some (Inr s1)" "size_of (layer s1) = size_of (layer s)"
      by blast
    from vx random_randint_returns[of "- fst (spacing_variation geo)" "fst (spacing_variation geo)" "gen s1"]
    obtain r where r: "random_randint (- fst (spacing_variation geo)) (fst (spacing_variation geo)) (gen s1)
        = Inr (r, rest (gen s1))" by auto
    from random_randint_range[OF r] have "- fst (spacing_variation geo) \<le> r" by simp
    with stepx have pos: "0 < fst (pattern_size geo) + (fst (base_spacing geo) + r)" by simp
    with True have "nat (fst bs - (x + (fst (pattern_size geo) + (fst (base_spacing geo) + r)))) < nat (fst bs - x)"
      by simp
    from less[OF this, of "s1\<lparr>gen := rest (gen s1)\<rparr>"] show ?thesis using True s1 r
      by (subst outer_loop.simps) (simp add: Let_def)
  qed
qed

lemma composite_mask_zero:
  "composite a b m = Inr l \<Longrightarrow> px m x y = 0 \<Longrightarrow> px l x y = px b x y"
  by (auto simp: composite_def paste_mask_def blend_pixel_0 split: if_splits)

lemma alpha_composite_px:
  "alpha_composite d s = Inr out \<Longrightarrow>
     px out x y = over_pixel (px d x y) (px s x y) \<and> width out = width d \<and> height out = height d"
  by (auto simp: alpha_composite_def split: if_splits)

lemma pattern_pipeline_cases:
  assumes "pattern_pipeline body P base tile mask_image path geo g w = Some (Inr (out, s, w'))"
  shows "\<exists>m l. resize (resample_l P) mask_image (size_of base) = Inr m \<and>
     composite (layer s) (Image_new (width base) (height base) transparent) m = Inr l \<and>
     alpha_composite base l = Inr out \<and>
     w' = print (pattern_message path) (save out path w)"
  using assms
  by (auto simp: pattern_pipeline_def Let_def and_then_def split: sum.splits option.splits)

lemma pattern_pipeline_returns:
  assumes body: "\<And>pat bs x y s. \<exists>s'. body pat bs x y s = Inr s' \<and> size_of (layer s') = size_of (layer s)"
    and tile: "size_of tile = pattern_size geo \<or> (1 \<le> fst (pattern_size geo) \<and> 1 \<le> snd (pattern_size geo))"
    and msk: "size_of mask_image = size_of base \<or> (0 < width base \<and> 0 < height base)"
    and vx: "0 \<le> fst (spacing_variation geo)"
    and vy: "0 \<le> snd (spacing_variation geo)"
    and stepx: "0 < fst (pattern_size geo) + fst (base_spacing geo) - fst (spacing_variation geo)"
    and stepy: "0 < snd (pattern_size geo) + snd (base_spacing geo) - snd (spacing_variation geo)"
  shows "\<exists>out s w'. pattern_pipeline body P base tile mask_image path geo g w = Some (Inr (out, s, w'))"
proof -
  from resize_returns[OF tile] obtain pat where
    pat: "resize (resample_rgba P) tile (pattern_size geo) = Inr pat" by blast
  have "size_of mask_image = size_of base \<or> (1 \<le> fst (size_of base) \<and> 1 \<le> snd (size_of base))"
    using msk by (auto simp: size_of_def)
  from resize_returns[OF this] obtain m where
    m: "resize (resample_l P) mask_image (size_of base) = Inr m" by blast
  define s0 where "s0 = \<lparr>layer = Image_new (width base) (height base) transparent, gen = g, visited = []\<rparr>"
  from outer_loop_returns[of "body pat (size_of base)" geo "size_of base" 0 s0, OF body vx vy stepx stepy]
  obtain s where s: "outer_loop (body pat (size_of base)) geo (size_of base) 0 s0 = Some (Inr s)"
    and ls: "size_of (layer s) = size_of (layer s0)" by blast
  have l0: "size_of (layer s0) = size_of base" by (simp add: s0_def size_of_def Image_new_def)
  have sm: "size_of m = size_of base" using resize_size[OF m] .
  show ?thesis
    using pat m s[unfolded s0_def]
    by (simp add: pattern_pipeline_def Let_def composite_transparent[OF ls[unfolded l0] sm]
        alpha_composite_def same_size_def)
qed

lemma pattern_pipeline_terminates:
  assumes stepx: "0 < fst (pattern_size geo) + fst (base_spacing geo) - fst (spacing_variation geo)"
    and stepy: "0 < snd (pattern_size geo) + snd (base_spacing geo) - snd (spacing_variation geo)"
  shows "pattern_pipeline body P base tile mask_image path geo g w \<noteq> None"
proof (cases "resize (resample_rgba P) tile (pattern_size geo)")
  case Inl
  then show ?thesis by (simp add: pattern_pipeline_def)
next
  case pat: (Inr pat)
  show ?thesis
  proof (cases "resize (resample_l P) mask_image (size_of base)")
    case Inl
    then show ?thesis using pat by (simp add: pattern_pipeline_def)
  next
    case m: (Inr m)
    from outer_loop_terminates[OF stepx stepy] obtain res where
      "outer_loop (body pat (size_of base)) geo (size_of base) 0
         \<lparr>layer = Image_new (width base) (height base) transparent, gen = g, visited = []\<rparr> = Some res"
      by blast
    then show ?thesis using pat m
      by (cases res) (simp_all add: pattern_pipeline_def)
  qed
qed

lemma stamp_keeps_size:
  "\<exists>s'. stamp P pattern alpha bs x y s = Inr s' \<and> size_of (layer s') = size_of (layer s)"
proof -
  from stamp_Inr[of P pattern alpha bs x y s] obtain l where
    "stamp P pattern alpha bs x y s =
       Inr (s\<lparr>layer := l, gen := rest (gen s), visited := visited s @ [(x, y)]\<rparr>)"
    and "size_of l = size_of (layer s)" by blast
  then show ?thesis by simp
qed

lemma create_pattern_returns:
  assumes "size_of tile = pattern_size geo \<or> (1 \<le> fst (pattern_size geo) \<and> 1 \<le> snd (pattern_size geo))"
    and "size_of mask_image = size_of base \<or> (0 < width base \<and> 0 < height base)"
    and "0 \<le> fst (spacing_variation geo)"
    and "0 \<le> snd (spacing_variation geo)"
    and "0 < fst (pattern_size geo) + fst (base_spacing geo) - fst (spacing_variation geo)"
    and "0 < snd (pattern_size geo) + snd (base_spacing geo) - snd (spacing_variation geo)"
  shows "\<exists>out s w'. create_pattern P base tile mask_image path geo alpha g w = Some (Inr (out, s, w'))"
  unfolding create_pattern_def
  by (rule pattern_pipeline_returns[OF stamp_keeps_size assms])

lemma random_randint_zero: "random_randint 0 0 g = Inr (0, rest g)"
  by (simp add: random_randint_def)

lemma stamp_visits:
  "\<exists>s'. stamp P pattern alpha bs x y s = Inr s' \<and> visited s' = visited s @ [(x, y)] \<and>
        size_of (layer s') = size_of (layer s)"
proof -
  from stamp_Inr[of P pattern alpha bs x y s] obtain l where
    "stamp P pattern alpha bs x y s =
       Inr (s\<lparr>layer := l, gen := rest (gen s), visited := visited s @ [(x, y)]\<rparr>)"
    and "size_of l = size_of (layer s)" by blast
  then show ?thesis by simp
qed

lemma grid_column:
  assumes body: "\<And>x y s. \<exists>s'. body x y s = Inr s' \<and> visited s' = visited s @ [(x, y)] \<and>
        size_of (layer s') = size_of (layer s)"
  shows "\<exists>s'. inner_loop body grid_geometry (500, 500) x 0 s = Some (Inr s') \<and>
     visited s' = visited s @ [(x, 0), (x, 150), (x, 300), (x, 450)] \<and>
     size_of (layer s') = size_of (layer s)"
proof -
  from body obtain s1 where s1: "body x 0 s = Inr s1" "visited s1 = visited s @ [(x, 0)]"
    "size_of (layer s1) = size_of (layer s)" by blast
  from body obtain s2 where s2: "body x 150 (s1\<lparr>gen := rest (gen s1)\<rparr>) = Inr s2"
    "visited s2 = visited (s1\<lparr>gen := rest (gen s1)\<rparr>) @ [(x, 150)]"
    "size_of (layer s2) = size_of (layer (s1\<lparr>gen := rest (gen s1)\<rparr>))" by blast
  from body obtain s3 where s3: "body x 300 (s2\<lparr>gen := rest (gen s2)\<rparr>) = Inr s3"
    "visited s3 = visited (s2\<lparr>gen := rest (gen s2)\<rparr>) @ [(x, 300)]"
    "size_of (layer s3) = size_of (layer (s2\<lparr>gen := rest (gen s2)\<rparr>))" by blast
  from body obtain s4 where s4: "body x 450 (s3\<lparr>gen := rest (gen s3)\<rparr>) = Inr s4"
    "visited s4 = visited (s3\<lparr>gen := rest (gen s3)\<rparr>) @ [(x, 450)]"
    "size_of (layer s4) = size_of (layer (s3\<lparr>gen := rest (gen s3)\<rparr>))" by blast
  have "inner_loop body grid_geometry (500, 500) x 0 s = Some (Inr (s4\<lparr>gen := rest (gen s4)\<rparr>))"
    apply (subst inner_loop.simps, simp add: s1 grid_geometry_def random_randint_zero)
    apply (subst inner_loop.simps, simp add: s2 grid_geometry_def random_randint_zero)
    apply (subst inner_loop.simps, simp add: s3 grid_geometry_def random_randint_zero)
    apply (subst inner_loop.simps, simp add: s4 grid_geometry_def random_randint_zero)
    apply (subst inner_loop.simps, simp)
    done
  then show ?thesis using s1 s2 s3 s4 by simp
qed

lemma grid_rows:
  assumes body: "\<And>x y s. \<exists>s'. body x y s = Inr s' \<and> visited s' = visited s @ [(x, y)] \<and>
        size_of (layer s') = size_of (layer s)"
  shows "\<exists>s'. outer_loop body grid_geometry (500, 500) 0 s = Some (Inr s') \<and>
     visited s' = visited s @
       [(0, 0), (0, 150), (0, 300), (0, 450), (150, 0), (150, 150), (150, 300), (150, 450),
        (300, 0), (300, 150), (300, 300), (300, 450), (450, 0), (450, 150), (450, 300), (450, 450)] \<and>
     size_of (layer s') = size_of (layer s)"
proof -
  note col = grid_column[of body, OF body]
  from col obtain s1 where s1: "inner_loop body grid_geometry (500, 500) 0 0 s = Some (Inr s1)"
    "visited s1 = visited s @ [(0, 0), (0, 150), (0, 300), (0, 450)]"
    "size_of (layer s1) = size_of (layer s)" by blast
  from col obtain s2 where s2:
    "inner_loop body grid_geometry (500, 500) 150 0 (s1\<lparr>gen := rest (gen s1)\<rparr>) = Some (Inr s2)"
    "visited s2 = visited (s1\<lparr>gen := rest (gen s1)\<rparr>) @ [(150, 0), (150, 150), (150, 300), (150, 450)]"
    "size_of (layer s2) = size_of (layer (s1\<lparr>gen := rest (gen s1)\<rparr>))" by blast
  from col obtain s3 where s3:
    "inner_loop body grid_geometry (500, 500) 300 0 (s2\<lparr>gen := rest (gen s2)\<rparr>) = Some (Inr s3)"
    "visited s3 = visited (s2\<lparr>gen := rest (gen s2)\<rparr>) @ [(300, 0), (300, 150), (300, 300), (300, 450)]"
    "size_of (layer s3) = size_of (layer (s2\<lparr>gen := rest (gen s2)\<rparr>))" by blast
  from col obtain s4 where s4:
    "inner_loop body grid_geometry (500, 500) 450 0 (s3\<lparr>gen := rest (gen s3)\<rparr>) = Some (Inr s4)"
    "visited s4 = visited (s3\<lparr>gen := rest (gen s3)\<rparr>) @ [(450, 0), (450, 150), (450, 300), (450, 450)]"
    "size_of (layer s4) = size_of (layer (s3\<lparr>gen := rest (gen s3)\<rparr>))" by blast
  have g: "fst (spacing_variation grid_geometry) = 0" "fst (base_spacing grid_geometry) = 50"
    "fst (pattern_size grid_geometry) = 100"
    by (simp_all add: grid_geometry_def)
  have "outer_loop body grid_geometry (500, 500) 0 s = Some (Inr (s4\<lparr>gen := rest (gen s4)\<rparr>))"
    apply (subst outer_loop.simps, simp add: s1 g random_randint_zero)
    apply (subst outer_loop.simps, simp add: s2 g random_randint_zero)
    apply (subst outer_loop.simps, simp add: s3 g random_randint_zero)
    apply (subst outer_loop.simps, simp add: s4 g random_randint_zero)
    apply (subst outer_loop.simps, simp)
    done
  then show ?thesis using s1 s2 s3 s4 by simp
qed

section \<open>Facts about \<^verbatim>\<open>border\<close>\<close>

lemma border_unfold:
  "border P img r color =
     Inr ((Image_new (width img + 2 * r) (height img + 2 * r) color)
       \<lparr>px := (\<lambda>x y.
          if in_box (Image_new (width img + 2 * r) (height img + 2 * r) color) img (int r, int r) x y
          then blend_pixel (chan_a (px img (nat (int x - int r)) (nat (int y - int r))))
                 (set_alpha color
                    (px (SMOOTH P (MaxFilter (2 * r + 1)
                          (paste (Image_new (width img + 2 * r) (height img + 2 * r) 0)
                             (point binarize (getchannel_a img)) (int r, int r)))) x y))
                 (px img (nat (int x - int r)) (nat (int y - int r)))
          else set_alpha color
                    (px (SMOOTH P (MaxFilter (2 * r + 1)
                          (paste (Image_new (width img + 2 * r) (height img + 2 * r) 0)
                             (point binarize (getchannel_a img)) (int r, int r)))) x y))\<rparr>)"
  by (simp add: border_def Let_def putalpha_def paste_mask_def same_size_def Image_new_def
      SMOOTH_def MaxFilter_def paste_def in_box_def getchannel_a_def fun_eq_iff)

lemma border_interior_px:
  assumes "x < width img" "y < height img"
  shows "\<exists>out v. border P img r color = Inr out \<and>
     px out (x + r) (y + r) = blend_pixel (chan_a (px img x y)) (set_alpha color v) (px img x y)"
  using assms
  by (auto simp: border_unfold in_box_def Image_new_def)

lemma BLEND_128_255_10: "BLEND 128 255 10 = 132"
  by (simp add: BLEND_def DIV255_def)

section \<open>Facts about rounding and clipping\<close>

lemma py_round_near: "\<bar>real_of_int (py_round v) - v\<bar> \<le> 1 / 2"
proof -
  have "real_of_int \<lfloor>v\<rfloor> \<le> v" "v < real_of_int \<lfloor>v\<rfloor> + 1" by linarith+
  then show ?thesis unfolding py_round_def Let_def by (auto simp: abs_le_iff)
qed

lemma py_round_bounds:
  assumes "0 \<le> v" "v \<le> 255"
  shows "0 \<le> py_round v \<and> py_round v \<le> 255"
proof -
  have f: "real_of_int \<lfloor>v\<rfloor> \<le> v" "v < real_of_int \<lfloor>v\<rfloor> + 1" by linarith+
  have lo: "0 \<le> \<lfloor>v\<rfloor>" using assms(1) by simp
  have hi: "\<lfloor>v\<rfloor> \<le> 255" using assms(2) by linarith
  have "\<lfloor>v\<rfloor> \<le> 254" if "0 < v - real_of_int \<lfloor>v\<rfloor>"
  proof -
    from that assms(2) have "real_of_int \<lfloor>v\<rfloor> < 255" by linarith
    then show ?thesis by linarith
  qed
  then show ?thesis using lo hi unfolding py_round_def Let_def by auto
qed

lemma unat_CLIP8:
  assumes "0 \<le> v" "v \<le> 255"
  shows "int (unat (CLIP8 v)) = v"
proof -
  obtain n where n: "v = int n" using assms(1) by (metis nonneg_int_cases)
  with assms(2) have less: "n < 256" by simp
  then have u: "unat (word_of_nat n :: byte) = n" by (simp add: unat_of_nat)
  have c: "CLIP8 v = (word_of_nat n :: byte)" using less by (simp add: CLIP8_def n del: of_nat_eq_0_iff)
  have "unat (CLIP8 v) = n" by (simp only: c u)
  then show ?thesis by (simp only: n)
qed

section \<open>Facts about the store\<close>

lemma grows_trans: "grows a b \<Longrightarrow> grows b c \<Longrightarrow> grows a c"
  by (auto simp: grows_def)

lemma load_inputs_spec:
  assumes "load_inputs P base_image texture_image mask_image st = Inr ((base, texture, msk), st')"
    and "base_image < rgba_next st" "texture_image < rgba_next st" "mask_image < l_next st"
  shows "grows st st' \<and> base < rgba_next st' \<and> texture < rgba_next st' \<and> msk < l_next st' \<and>
     rgba_objs st' base = rgba_objs st base_image \<and>
     resize (resample_rgba P) (rgba_objs st texture_image) (size_of (rgba_objs st base_image))
       = Inr (rgba_objs st' texture) \<and>
     resize (resample_l P) (l_objs st mask_image) (size_of (rgba_objs st base_image))
       = Inr (l_objs st' msk)"
  using assms
  by (auto simp: load_inputs_def alloc_rgba_def alloc_l_def Let_def grows_def and_then_def
      split: sum.splits)

lemma adjust_texture_store_spec:
  assumes "adjust_texture_store P texture alpha st = Inr (texture', st')"
    and "texture < rgba_next st"
  shows "grows st st' \<and> texture' < rgba_next st' \<and>
     adjust_texture P (rgba_objs st texture) alpha = Inr (rgba_objs st' texture')"
  using assms
  by (auto simp: adjust_texture_store_def adjust_texture_def alloc_rgba_def alloc_l_def put_rgba_def
      Let_def grows_def and_then_def split: sum.splits)

lemma composite_store_spec:
  assumes "composite_store image1 image2 msk st = Inr (canvas, st')"
    and "image1 < rgba_next st" "image2 < rgba_next st" "msk < l_next st"
  shows "grows st st' \<and> canvas < rgba_next st' \<and>
     composite (rgba_objs st image1) (rgba_objs st image2) (l_objs st msk) = Inr (rgba_objs st' canvas)"
  using assms
  by (auto simp: composite_store_def composite_def alloc_rgba_def put_rgba_def
      Let_def grows_def and_then_def split: sum.splits)

lemma alloc_rgba_spec:
  "alloc_rgba v st = (a, st') \<Longrightarrow>
     grows st st' \<and> rgba_next st \<le> a \<and> a < rgba_next st' \<and> rgba_objs st' a = v"
  by (auto simp: alloc_rgba_def grows_def)

lemma grows_rgba: "grows st st' \<Longrightarrow> a < rgba_next st \<Longrightarrow> rgba_objs st' a = rgba_objs st a \<and> a < rgba_next st'"
  by (auto simp: grows_def)

lemma grows_l: "grows st st' \<Longrightarrow> a < l_next st \<Longrightarrow> l_objs st' a = l_objs st a \<and> a < l_next st'"
  by (auto simp: grows_def)

lemma apply_texture_store_spec:
  assumes run: "apply_texture_store P base_image texture_image mask_image path alpha (st, w) = Inr (r, st', w')"
    and live: "base_image < rgba_next st" "texture_image < rgba_next st" "mask_image < l_next st"
  shows "grows st st' \<and> rgba_next st \<le> r \<and>
    w' = print (texture_message path) (save (rgba_objs st' r) path w) \<and>
    apply_texture P (rgba_objs st base_image) (rgba_objs st texture_image) (l_objs st mask_image)
      path alpha w = Inr (rgba_objs st' r, w')"
proof -
  from run obtain base texture msk st1 where
    s1: "load_inputs P base_image texture_image mask_image st = Inr ((base, texture, msk), st1)"
    by (cases "load_inputs P base_image texture_image mask_image st")
       (auto simp: apply_texture_store_def)
  from run s1 obtain texture2 st2 where
    s2: "adjust_texture_store P texture alpha st1 = Inr (texture2, st2)"
    by (cases "adjust_texture_store P texture alpha st1") (auto simp: apply_texture_store_def)
  obtain blank st3 where
    s3: "alloc_rgba (Image_new (width (rgba_objs st2 base)) (height (rgba_objs st2 base)) transparent) st2
          = (blank, st3)" by (rule prod.exhaust)
  from run s1 s2 s3 obtain layer st4 where
    s4: "composite_store texture2 blank msk st3 = Inr (layer, st4)"
    by (cases "composite_store texture2 blank msk st3") (auto simp: apply_texture_store_def)
  from run s1 s2 s3 s4 obtain out where
    s5: "alpha_composite (rgba_objs st4 base) (rgba_objs st4 layer) = Inr out"
    by (cases "alpha_composite (rgba_objs st4 base) (rgba_objs st4 layer)")
       (auto simp: apply_texture_store_def)
  obtain textured st5 where s6: "alloc_rgba out st4 = (textured, st5)" by (rule prod.exhaust)
  from run s1 s2 s3 s4 s5 s6 have res: "r = textured" "st' = st5"
    "w' = print (texture_message path) (save (rgba_objs st5 textured) path w)"
    by (auto simp: apply_texture_store_def)
  note f1 = load_inputs_spec[OF s1 live]
  from f1 have g1: "grows st st1" and b1: "base < rgba_next st1" and t1: "texture < rgba_next st1"
    and m1: "msk < l_next st1" and B: "rgba_objs st1 base = rgba_objs st base_image"
    and rt: "resize (resample_rgba P) (rgba_objs st texture_image) (size_of (rgba_objs st base_image))
       = Inr (rgba_objs st1 texture)"
    and rm: "resize (resample_l P) (l_objs st mask_image) (size_of (rgba_objs st base_image))
       = Inr (l_objs st1 msk)" by simp_all
  from adjust_texture_store_spec[OF s2 t1] have g2: "grows st1 st2" and t2: "texture2 < rgba_next st2"
    and at: "adjust_texture P (rgba_objs st1 texture) alpha = Inr (rgba_objs st2 texture2)" by simp_all
  from alloc_rgba_spec[OF s3] have g3: "grows st2 st3" and bl: "blank < rgba_next st3"
    and blank: "rgba_objs st3 blank =
      Image_new (width (rgba_objs st2 base)) (height (rgba_objs st2 base)) transparent" by simp_all
  have b2: "rgba_objs st2 base = rgba_objs st base_image" "base < rgba_next st2"
    using grows_rgba[OF g2 b1] B by simp_all
  have b3: "rgba_objs st3 base = rgba_objs st base_image" "base < rgba_next st3"
    using grows_rgba[OF g3 b2(2)] b2 by simp_all
  have t3: "rgba_objs st3 texture2 = rgba_objs st2 texture2" "texture2 < rgba_next st3"
    using grows_rgba[OF g3 t2] by simp_all
  have m2: "l_objs st2 msk = l_objs st1 msk" "msk < l_next st2" using grows_l[OF g2 m1] by simp_all
  have m3: "l_objs st3 msk = l_objs st1 msk" "msk < l_next st3" using grows_l[OF g3 m2(2)] m2 by simp_all
  from composite_store_spec[OF s4 t3(2) bl m3(2)] have g4: "grows st3 st4"
    and l4: "layer < rgba_next st4"
    and co: "composite (rgba_objs st2 texture2)
        (Image_new (width (rgba_objs st base_image)) (height (rgba_objs st base_image)) transparent)
        (l_objs st1 msk) = Inr (rgba_objs st4 layer)"
    by (simp_all add: t3 blank b2 m3)
  have b4: "rgba_objs st4 base = rgba_objs st base_image" using grows_rgba[OF g4 b3(2)] b3 by simp
  from alloc_rgba_spec[OF s6] have g5: "grows st4 st5" and r5: "rgba_next st4 \<le> textured"
    and out: "rgba_objs st5 textured = out" by simp_all
  have g: "grows st st5"
    using g1 g2 g3 g4 g5 by (blast intro: grows_trans)
  have "rgba_next st \<le> rgba_next st4"
    using g1 g2 g3 g4 by (meson grows_def le_trans)
  moreover have "apply_texture P (rgba_objs st base_image) (rgba_objs st texture_image)
      (l_objs st mask_image) path alpha w =
      Inr (out, print (texture_message path) (save out path w))"
    using s5 by (simp add: apply_texture_def rt rm at co b4)
  ultimately show ?thesis using g res out r5 by simp
qed

lemma load_inputs_returns:
  assumes "base_image < rgba_next st" "texture_image < rgba_next st" "mask_image < l_next st"
    and "resize (resample_rgba P) (rgba_objs st texture_image) (size_of (rgba_objs st base_image)) = Inr t"
    and "resize (resample_l P) (l_objs st mask_image) (size_of (rgba_objs st base_image)) = Inr m"
  shows "\<exists>base texture msk st'.
     load_inputs P base_image texture_image mask_image st = Inr ((base, texture, msk), st')"
proof -
  have ne: "base_image \<noteq> rgba_next st" "texture_image \<noteq> rgba_next st" "mask_image \<noteq> l_next st"
    using assms(1-3) by auto
  show ?thesis
    by (simp add: load_inputs_def alloc_rgba_def alloc_l_def Let_def ne assms(4,5))
qed

lemma adjust_texture_store_returns:
  "\<exists>texture' st'. adjust_texture_store P texture alpha st = Inr (texture', st')"
  by (simp add: adjust_texture_store_def alloc_rgba_def alloc_l_def Let_def putalpha_def
      same_size_def point_def getchannel_a_def Brightness_enhance_def)

lemma composite_store_returns:
  assumes "image1 < rgba_next st" "same_size (rgba_objs st image1) (l_objs st msk)"
  shows "\<exists>canvas st'. composite_store image1 image2 msk st = Inr (canvas, st')"
proof -
  have "image1 \<noteq> rgba_next st" using assms(1) by auto
  then show ?thesis using assms(2)
    by (simp add: composite_store_def alloc_rgba_def Let_def paste_mask_def)
qed

lemma apply_texture_store_returns:
  assumes live: "base_image < rgba_next st" "texture_image < rgba_next st" "mask_image < l_next st"
    and pos: "0 < width (rgba_objs st base_image)" "0 < height (rgba_objs st base_image)"
  shows "\<exists>r st' w'. apply_texture_store P base_image texture_image mask_image path alpha (st, w)
           = Inr (r, st', w')"
proof -
  let ?B = "rgba_objs st base_image"
  have sz: "1 \<le> fst (size_of ?B) \<and> 1 \<le> snd (size_of ?B)" using pos by (simp add: size_of_def)
  from resize_returns[of _ "size_of ?B"] sz obtain t where
    t: "resize (resample_rgba P) (rgba_objs st texture_image) (size_of ?B) = Inr t" by blast
  from resize_returns[of _ "size_of ?B"] sz obtain m where
    m: "resize (resample_l P) (l_objs st mask_image) (size_of ?B) = Inr m" by blast
  from load_inputs_returns[OF live t m] obtain base texture msk st1 where
    s1: "load_inputs P base_image texture_image mask_image st = Inr ((base, texture, msk), st1)"
    by blast
  from load_inputs_spec[OF s1 live] t m
  have g1: "grows st st1" and b1: "base < rgba_next st1" and t1: "texture < rgba_next st1"
    and m1: "msk < l_next st1" and B: "rgba_objs st1 base = ?B"
    and rt: "rgba_objs st1 texture = t" and rm: "l_objs st1 msk = m" by simp_all
  from adjust_texture_store_returns obtain texture2 st2 where
    s2: "adjust_texture_store P texture alpha st1 = Inr (texture2, st2)" by blast
  from adjust_texture_store_spec[OF s2 t1] have g2: "grows st1 st2" and t2: "texture2 < rgba_next st2"
    and at: "adjust_texture P t alpha = Inr (rgba_objs st2 texture2)" by (simp_all add: rt)
  obtain blank st3 where
    s3: "alloc_rgba (Image_new (width (rgba_objs st2 base)) (height (rgba_objs st2 base)) transparent) st2
          = (blank, st3)" by (rule prod.exhaust)
  from alloc_rgba_spec[OF s3] have g3: "grows st2 st3" and bl: "blank < rgba_next st3"
    and blank: "rgba_objs st3 blank =
      Image_new (width (rgba_objs st2 base)) (height (rgba_objs st2 base)) transparent" by simp_all
  have b2: "rgba_objs st2 base = ?B" "base < rgba_next st2"
    using grows_rgba[OF g2 b1] B by simp_all
  have b3: "rgba_objs st3 base = ?B" "base < rgba_next st3"
    using grows_rgba[OF g3 b2(2)] b2 by simp_all
  have t3: "rgba_objs st3 texture2 = rgba_objs st2 texture2" "texture2 < rgba_next st3"
    using grows_rgba[OF g3 t2] by simp_all
  have m2: "l_objs st2 msk = m" "msk < l_next st2" using grows_l[OF g2 m1] rm by simp_all
  have m3: "l_objs st3 msk = m" "msk < l_next st3" using grows_l[OF g3 m2(2)] m2 by simp_all
  have st': "size_of (rgba_objs st2 texture2) = size_of ?B"
    using adjust_texture_size[OF at] resize_size[OF t] by simp
  have sm: "size_of m = size_of ?B" using resize_size[OF m] .
  have "same_size (rgba_objs st3 texture2) (l_objs st3 msk)"
    by (simp add: same_size_iff t3 m3 st' sm)
  from composite_store_returns[OF t3(2) this] obtain layer st4 where
    s4: "composite_store texture2 blank msk st3 = Inr (layer, st4)" by blast
  from composite_store_spec[OF s4 t3(2) bl m3(2)] have g4: "grows st3 st4"
    and co: "composite (rgba_objs st2 texture2) (Image_new (width ?B) (height ?B) transparent) m
       = Inr (rgba_objs st4 layer)"
    by (simp_all add: t3 blank b2 m3)
  have b4: "rgba_objs st4 base = ?B" using grows_rgba[OF g4 b3(2)] b3 by simp
  from co composite_transparent[OF st' sm]
  have "rgba_objs st4 layer = \<lparr>width = width ?B, height = height ?B,
      px = masked_layer_px ?B (rgba_objs st2 texture2) m\<rparr>" by simp
  then have "size_of (rgba_objs st4 layer) = size_of ?B"
    by (simp add: size_of_def)
  then obtain out where s5: "alpha_composite (rgba_objs st4 base) (rgba_objs st4 layer) = Inr out"
    by (simp add: alpha_composite_def same_size_iff b4)
  obtain textured st5 where s6: "alloc_rgba out st4 = (textured, st5)" by (rule prod.exhaust)
  show ?thesis
    by (simp add: apply_texture_store_def s1 s2 s3 s4 s5 s6)
qed

section \<open>The claims\<close>

text \<open>
  C1.  For every RGBA image, every radius \<open>r \<ge> 0\<close> and every colour, \<^verbatim>\<open>border\<close> returns
  a buffer, and its width and height are the image's plus \<open>2 * r\<close>.
\<close>

theorem border_size:
  "\<exists>out. border P img r color = Inr out \<and>
         width out = width img + 2 * r \<and> height out = height img + 2 * r"
  by (simp add: border_unfold Image_new_def)


text \<open>
  C2.  \<^verbatim>\<open>apply_texture\<close> and \<^verbatim>\<open>create_pattern\<close> return a buffer of exactly the base's width
  and height, whatever the sizes of the texture, tile and mask: every buffer they return
  has the base's size, and they do return one (for a base with positive sides;
  \<^verbatim>\<open>create_pattern\<close> with a tile size of at least 1, spacing variations that are not
  negative and grid steps that stay positive).
\<close>

theorem dimension_preservation:
  "(\<forall>out w'. apply_texture P base texture_image mask_image path alpha w = Inr (out, w')
       \<longrightarrow> width out = width base \<and> height out = height base) \<and>
   (\<forall>out s w'. create_pattern P base tile mask_image path geo alpha g w = Some (Inr (out, s, w'))
       \<longrightarrow> width out = width base \<and> height out = height base) \<and>
   (0 < width base \<and> 0 < height base
       \<longrightarrow> (\<exists>out w'. apply_texture P base texture_image mask_image path alpha w = Inr (out, w'))) \<and>
   (0 < width base \<and> 0 < height base \<and>
    1 \<le> fst (pattern_size geo) \<and> 1 \<le> snd (pattern_size geo) \<and>
    0 \<le> fst (spacing_variation geo) \<and> 0 \<le> snd (spacing_variation geo) \<and>
    0 < fst (pattern_size geo) + fst (base_spacing geo) - fst (spacing_variation geo) \<and>
    0 < snd (pattern_size geo) + snd (base_spacing geo) - snd (spacing_variation geo)
       \<longrightarrow> (\<exists>out s w'. create_pattern P base tile mask_image path geo alpha g w
                          = Some (Inr (out, s, w'))))"
proof (intro conjI allI impI)
  fix out w'
  assume "apply_texture P base texture_image mask_image path alpha w = Inr (out, w')"
  from apply_texture_size[OF this]
  show "width out = width base" "height out = height base" by simp_all
next
  fix out s w'
  assume "create_pattern P base tile mask_image path geo alpha g w = Some (Inr (out, s, w'))"
  from pattern_pipeline_cases[OF this[unfolded create_pattern_def]] obtain l where
    "alpha_composite base l = Inr out" by blast
  from alpha_composite_px[OF this]
  show "width out = width base" "height out = height base" by simp_all
next
  assume "0 < width base \<and> 0 < height base"
  then show "\<exists>out w'. apply_texture P base texture_image mask_image path alpha w = Inr (out, w')"
    by (intro apply_texture_returns) simp
next
  assume h: "0 < width base \<and> 0 < height base \<and>
    1 \<le> fst (pattern_size geo) \<and> 1 \<le> snd (pattern_size geo) \<and>
    0 \<le> fst (spacing_variation geo) \<and> 0 \<le> snd (spacing_variation geo) \<and>
    0 < fst (pattern_size geo) + fst (base_spacing geo) - fst (spacing_variation geo) \<and>
    0 < snd (pattern_size geo) + snd (base_spacing geo) - snd (spacing_variation geo)"
  show "\<exists>out s w'. create_pattern P base tile mask_image path geo alpha g w = Some (Inr (out, s, w'))"
    by (rule create_pattern_returns) (use h in simp_all)
qed

theorem dimension_preservation_witness:
  "(\<exists>out w'. apply_texture pil_plain (dot transparent) (Image_new 3 2 transparent) (Image_new 5 7 0)
                ''out.png'' (1 / 2) empty_world = Inr (out, w') \<and>
              width out = 1 \<and> height out = 1) \<and>
   (\<exists>out s w'. create_pattern pil_plain (dot transparent) (Image_new 3 2 transparent) (Image_new 5 7 0)
                ''out.png'' default_geometry (1 / 2) zeros empty_world
                  = Some (Inr (out, s, w')) \<and>
              width out = 1 \<and> height out = 1)"
proof -
  note T = dimension_preservation [where P = pil_plain and base = "dot transparent"
      and texture_image = "Image_new 3 2 transparent" and tile = "Image_new 3 2 transparent"
      and mask_image = "Image_new 5 7 0" and path = "''out.png''" and alpha = "1 / 2"
      and w = empty_world and geo = default_geometry and g = zeros]
  have pos: "0 < width (dot transparent :: pixel image) \<and> 0 < height (dot transparent :: pixel image)"
    and wh: "width (dot transparent :: pixel image) = 1" "height (dot transparent :: pixel image) = 1"
    by (simp_all add: dot_def Image_new_def)
  have geo: "1 \<le> fst (pattern_size default_geometry) \<and> 1 \<le> snd (pattern_size default_geometry) \<and>
    0 \<le> fst (spacing_variation default_geometry) \<and> 0 \<le> snd (spacing_variation default_geometry) \<and>
    0 < fst (pattern_size default_geometry) + fst (base_spacing default_geometry)
          - fst (spacing_variation default_geometry) \<and>
    0 < snd (pattern_size default_geometry) + snd (base_spacing default_geometry)
          - snd (spacing_variation default_geometry)"
    by (simp add: default_geometry_def)
  from T pos obtain out w' where
    a: "apply_texture pil_plain (dot transparent) (Image_new 3 2 transparent) (Image_new 5 7 0)
          ''out.png'' (1 / 2) empty_world = Inr (out, w')" by blast
  from T pos geo obtain out2 s w2 where
    b: "create_pattern pil_plain (dot transparent) (Image_new 3 2 transparent) (Image_new 5 7 0)
          ''out.png'' default_geometry (1 / 2) zeros empty_world = Some (Inr (out2, s, w2))" by blast
  from T a have "width out = 1 \<and> height out = 1" unfolding wh by blast
  moreover from T b have "width out2 = 1 \<and> height out2 = 1" unfolding wh by blast
  ultimately show ?thesis using a b by blast
qed

text \<open>
  C3.  Mask gating of \<^verbatim>\<open>apply_texture\<close>: wherever the resized mask is 0, the pixel of the
  returned buffer is the base's pixel, in all four channels.
\<close>

theorem apply_texture_mask_gating:
  assumes "apply_texture P base texture_image mask_image path alpha w = Inr (out, w')"
    and "resize (resample_l P) mask_image (size_of base) = Inr m"
    and "px m x y = 0"
  shows "px out x y = px base x y"
proof -
  from apply_texture_cases[OF assms(1)] assms(2) obtain t t' where
    t: "resize (resample_rgba P) texture_image (size_of base) = Inr t"
    and t': "adjust_texture P t alpha = Inr t'" by auto
  from apply_texture_eq[OF t assms(2) t', of path w] assms(1)
  have "out = base\<lparr>px := (\<lambda>x y. over_pixel (px base x y) (masked_layer_px base t' m x y))\<rparr>"
    by simp
  then show ?thesis
    by (simp add: masked_layer_px_outside[OF assms(3)] over_pixel_transparent)
qed

theorem apply_texture_mask_gating_witness:
  "\<exists>out w'. apply_texture pil_plain (dot (RGBA 10 20 30 40)) (dot (RGBA 200 100 50 255)) (dot 0)
               ''out.png'' (1 / 2) empty_world = Inr (out, w') \<and>
            resize (resample_l pil_plain) (dot 0) (size_of (dot (RGBA 10 20 30 40))) = Inr (dot 0) \<and>
            px (dot (0 :: byte)) 0 0 = 0 \<and>
            px out 0 0 = RGBA 10 20 30 40"
proof -
  have m: "resize (resample_l pil_plain) (dot 0) (size_of (dot (RGBA 10 20 30 40))) = Inr (dot 0)"
    by (simp add: resize_def size_of_def dot_def Image_new_def)
  have z: "px (dot (0 :: byte)) 0 0 = 0" by (simp add: dot_def Image_new_def)
  have "\<exists>out w'. apply_texture pil_plain (dot (RGBA 10 20 30 40)) (dot (RGBA 200 100 50 255)) (dot 0)
               ''out.png'' (1 / 2) empty_world = Inr (out, w')"
    by (rule apply_texture_returns) (simp add: dot_def Image_new_def)
  then obtain out w' where
    a: "apply_texture pil_plain (dot (RGBA 10 20 30 40)) (dot (RGBA 200 100 50 255)) (dot 0)
               ''out.png'' (1 / 2) empty_world = Inr (out, w')" by blast
  from apply_texture_mask_gating[OF a m z] have "px out 0 0 = RGBA 10 20 30 40"
    by (simp add: dot_def Image_new_def)
  with a m z show ?thesis by blast
qed

text \<open>
  C10.  Mask gating of \<^verbatim>\<open>create_pattern\<close>: for every geometry, alpha and sequence of random
  draws, wherever the resized mask is 0 the pixel of the returned buffer is the base's.
\<close>

theorem create_pattern_mask_gating:
  assumes "create_pattern P base tile mask_image path geo alpha g w = Some (Inr (out, s, w'))"
    and "resize (resample_l P) mask_image (size_of base) = Inr m"
    and "px m x y = 0"
  shows "px out x y = px base x y"
proof -
  from pattern_pipeline_cases[OF assms(1)[unfolded create_pattern_def]] assms(2) obtain l where
    l: "composite (layer s) (Image_new (width base) (height base) transparent) m = Inr l"
    and out: "alpha_composite base l = Inr out" by auto
  from composite_mask_zero[OF l assms(3)] have "px l x y = transparent"
    by (simp add: Image_new_def)
  with alpha_composite_px[OF out, of x y] show ?thesis
    by (simp add: over_pixel_transparent)
qed

theorem create_pattern_mask_gating_witness:
  "\<exists>out s w'. create_pattern pil_plain (dot (RGBA 10 20 30 40)) (dot (RGBA 200 100 50 255)) (dot 0)
               ''out.png'' default_geometry (1 / 2) zeros empty_world = Some (Inr (out, s, w')) \<and>
            resize (resample_l pil_plain) (dot 0) (size_of (dot (RGBA 10 20 30 40))) = Inr (dot 0) \<and>
            px (dot (0 :: byte)) 0 0 = 0 \<and>
            px out 0 0 = RGBA 10 20 30 40"
proof -
  have m: "resize (resample_l pil_plain) (dot 0) (size_of (dot (RGBA 10 20 30 40))) = Inr (dot 0)"
    by (simp add: resize_def size_of_def dot_def Image_new_def)
  have z: "px (dot (0 :: byte)) 0 0 = 0" by (simp add: dot_def Image_new_def)
  have "\<exists>out s w'. create_pattern pil_plain (dot (RGBA 10 20 30 40)) (dot (RGBA 200 100 50 255)) (dot 0)
               ''out.png'' default_geometry (1 / 2) zeros empty_world = Some (Inr (out, s, w'))"
    by (rule create_pattern_returns) (simp_all add: dot_def Image_new_def default_geometry_def)
  then obtain out s w' where
    a: "create_pattern pil_plain (dot (RGBA 10 20 30 40)) (dot (RGBA 200 100 50 255)) (dot 0)
               ''out.png'' default_geometry (1 / 2) zeros empty_world = Some (Inr (out, s, w'))"
    by blast
  from create_pattern_mask_gating[OF a m z] have "px out 0 0 = RGBA 10 20 30 40"
    by (simp add: dot_def Image_new_def)
  with a m z show ?thesis by blast
qed

text \<open>
  C9.  Whenever the tile size plus the base spacing minus the spacing variation is
  positive on both axes, the grid walk of \<^verbatim>\<open>create_pattern\<close> ends for every sequence of
  random draws: the call returns or raises, it never runs forever.  Every jitter that
  \<^verbatim>\<open>random.randint\<close> can return makes the cursor advance by a positive amount.
\<close>

theorem create_pattern_terminates:
  assumes "0 < width base" and "0 < height base"
    and "0 < fst (pattern_size geo) + fst (base_spacing geo) - fst (spacing_variation geo)"
    and "0 < snd (pattern_size geo) + snd (base_spacing geo) - snd (spacing_variation geo)"
  shows "create_pattern P base tile mask_image path geo alpha g w \<noteq> None \<and>
    (\<forall>g r g'. random_randint (- fst (spacing_variation geo)) (fst (spacing_variation geo)) g = Inr (r, g')
        \<longrightarrow> 0 < fst (pattern_size geo) + (fst (base_spacing geo) + r)) \<and>
    (\<forall>g r g'. random_randint (- snd (spacing_variation geo)) (snd (spacing_variation geo)) g = Inr (r, g')
        \<longrightarrow> 0 < snd (pattern_size geo) + (snd (base_spacing geo) + r))"
proof (intro conjI allI impI)
  show "create_pattern P base tile mask_image path geo alpha g w \<noteq> None"
    unfolding create_pattern_def by (rule pattern_pipeline_terminates[OF assms(3,4)])
next
  fix g r g'
  assume "random_randint (- fst (spacing_variation geo)) (fst (spacing_variation geo)) g = Inr (r, g')"
  from random_randint_range[OF this] assms(3)
  show "0 < fst (pattern_size geo) + (fst (base_spacing geo) + r)" by simp
next
  fix g r g'
  assume "random_randint (- snd (spacing_variation geo)) (snd (spacing_variation geo)) g = Inr (r, g')"
  from random_randint_range[OF this] assms(4)
  show "0 < snd (pattern_size geo) + (snd (base_spacing geo) + r)" by simp
qed

theorem create_pattern_terminates_witness:
  "create_pattern pil_plain (dot (RGBA 10 20 30 40)) (dot (RGBA 200 100 50 255)) (dot 0)
     ''out.png'' default_geometry (1 / 2) zeros empty_world \<noteq> None"
  using create_pattern_terminates [of "dot (RGBA 10 20 30 40)" default_geometry pil_plain
      "dot (RGBA 200 100 50 255)" "dot 0" "''out.png''" "1 / 2" zeros empty_world]
  by (simp add: dot_def Image_new_def default_geometry_def)

text \<open>
  C7.  The boundary check of \<^verbatim>\<open>create_pattern\<close> is dead code: the function with the
  branch and the function without it give the same result on every input and for every
  sequence of random draws.  Every cell pastes its rotated tile (the paste never raises
  and is never skipped), and the pattern layer keeps its size, so what falls outside the
  canvas is dropped by the paste.
\<close>

theorem boundary_check_dead:
  "create_pattern P base tile mask_image path geo alpha g w =
     create_pattern_unchecked P base tile mask_image path geo alpha g w \<and>
   (\<exists>l. stamp P pattern alpha bs x y s =
           Inr (s\<lparr>layer := l, gen := rest (gen s), visited := visited s @ [(x, y)]\<rparr>) \<and>
         size_of l = size_of (layer s))"
proof -
  have "(\<lambda>pattern base_size. stamp P pattern alpha base_size) =
        (\<lambda>pattern base_size. stamp_unchecked P pattern alpha)"
    by (intro ext) (rule stamp_eq_unchecked)
  then show ?thesis
    unfolding create_pattern_def create_pattern_unchecked_def
    by (simp add: stamp_eq_unchecked stamp_unchecked_Inr)
qed

text \<open>
  C5 (as amended).  In the buffer returned by \<^verbatim>\<open>border\<close>, a pixel of the sub-region at
  offset \<open>(r, r)\<close> equals the image's pixel wherever the image's alpha is 255.  The
  paste-back goes through the image's alpha band, so a pixel with an alpha strictly
  between 0 and 255 is blended with the stroke canvas.
\<close>

theorem border_interior_opaque:
  assumes "x < width img" and "y < height img" and "chan_a (px img x y) = 255"
  shows "\<exists>out. border P img r color = Inr out \<and> px out (x + r) (y + r) = px img x y"
proof -
  from border_interior_px[OF assms(1,2), of P r color] obtain out v where
    "border P img r color = Inr out"
    "px out (x + r) (y + r) = blend_pixel (chan_a (px img x y)) (set_alpha color v) (px img x y)"
    by blast
  then show ?thesis by (simp add: assms(3) blend_pixel_255)
qed

theorem border_interior_opaque_witness:
  "\<exists>out. border pil_plain (dot (RGBA 10 20 30 255)) 1 (RGBA 255 255 255 255) = Inr out \<and>
         px out 1 1 = RGBA 10 20 30 255"
  using border_interior_opaque [of 0 "dot (RGBA 10 20 30 255)" 0 pil_plain 1 "RGBA 255 255 255 255"]
  by (simp add: dot_def Image_new_def)

theorem border_interior_counterexample:
  "\<not> isl (border pil_plain (dot (RGBA 10 20 30 128)) 1 (RGBA 255 255 255 255)) \<and>
   0 < chan_a (px (dot (RGBA 10 20 30 128)) 0 0) \<and>
   px (projr (border pil_plain (dot (RGBA 10 20 30 128)) 1 (RGBA 255 255 255 255))) (0 + 1) (0 + 1)
     \<noteq> px (dot (RGBA 10 20 30 128)) 0 0"
proof -
  from border_interior_px[of 0 "dot (RGBA 10 20 30 128)" 0 pil_plain 1 "RGBA 255 255 255 255"]
  obtain out v where
    b: "border pil_plain (dot (RGBA 10 20 30 128)) 1 (RGBA 255 255 255 255) = Inr out"
    and p: "px out (0 + 1) (0 + 1) = blend_pixel 128 (set_alpha (RGBA 255 255 255 255) v) (RGBA 10 20 30 128)"
    by (auto simp: dot_def Image_new_def)
  have "chan_r (px out (0 + 1) (0 + 1)) = 132"
    unfolding p by (simp add: blend_pixel_def set_alpha_def BLEND_128_255_10)
  then have neq: "px out (0 + 1) (0 + 1) \<noteq> RGBA 10 20 30 128" by auto
  have d: "px (dot (RGBA 10 20 30 128)) 0 0 = RGBA 10 20 30 128"
    by (simp add: dot_def Image_new_def)
  show ?thesis unfolding b d using neq by simp
qed

text \<open>
  C4 (as amended).  The alpha band of the texture handed to compositing is the band of the
  resized texture sent through the table of \<^verbatim>\<open>p * alpha\<close>: the floating-point product,
  rounded to the nearest integer (ties to even) and clipped to a byte.  The brightness
  step leaves the alpha band alone.  When the product lies between 0 and 255 the byte is
  within one half of it; it is not the product itself.
\<close>

theorem adjusted_texture_alpha:
  "\<exists>t'. adjust_texture P t alpha = Inr t' \<and>
     (\<forall>x y. chan_a (px t' x y) = CLIP8 (py_round (float_mul P (unat (chan_a (px t x y))) alpha))) \<and>
     (\<forall>x y. 0 \<le> float_mul P (unat (chan_a (px t x y))) alpha \<and>
            float_mul P (unat (chan_a (px t x y))) alpha \<le> 255 \<longrightarrow>
        \<bar>real (unat (chan_a (px t' x y))) - float_mul P (unat (chan_a (px t x y))) alpha\<bar> \<le> 1 / 2)"
proof -
  have near: "\<bar>real (unat (CLIP8 (py_round v))) - v\<bar> \<le> 1 / 2" if "0 \<le> v" "v \<le> 255" for v
  proof -
    from py_round_bounds[OF that] have "int (unat (CLIP8 (py_round v))) = py_round v"
      by (intro unat_CLIP8) simp_all
    then have "real (unat (CLIP8 (py_round v))) = real_of_int (py_round v)"
      by (metis of_int_of_nat_eq)
    then show ?thesis using py_round_near[of v] by simp
  qed
  then show ?thesis
    by (simp add: adjust_texture_eq scale_alpha_def)
qed

theorem adjusted_texture_alpha_witness:
  "\<exists>t'. adjust_texture pil_plain (dot (RGBA 0 0 0 255)) (1 / 2) = Inr t' \<and>
     chan_a (px t' 0 0) = 128 \<and>
     \<bar>real (unat (chan_a (px t' 0 0))) - 255 * (1 / 2)\<bar> \<le> 1 / 2"
  using adjusted_texture_alpha [of pil_plain "dot (RGBA 0 0 0 255)" "1 / 2"]
  by (auto simp: dot_def Image_new_def pil_plain_def py_round_def CLIP8_def)

theorem adjusted_texture_alpha_counterexample:
  "\<not> isl (adjust_texture pil_plain (dot (RGBA 0 0 0 1)) (1 / 2)) \<and>
   real (unat (chan_a (px (projr (adjust_texture pil_plain (dot (RGBA 0 0 0 1)) (1 / 2))) 0 0)))
     \<noteq> real (unat (chan_a (px (dot (RGBA 0 0 0 1)) 0 0))) * (1 / 2)"
  by (simp add: adjust_texture_eq scale_alpha_def dot_def Image_new_def pil_plain_def
      py_round_def CLIP8_def)

text \<open>
  C6.  On a 500 x 500 base with tile size (100, 100), base spacing (50, 50) and spacing
  variation (0, 0), \<^verbatim>\<open>create_pattern\<close> visits the grid points with both coordinates in
  \<open>{0, 150, 300, 450}\<close>, column by column, for every random source and every rotation:
  both cursors start at 0 and advance by 150 while below 500.
\<close>

theorem grid_coverage:
  assumes "width base = 500" "height base = 500"
  shows "\<exists>out s w'. create_pattern P base tile mask_image path grid_geometry alpha g w
            = Some (Inr (out, s, w')) \<and>
     visited s =
       [(0, 0), (0, 150), (0, 300), (0, 450), (150, 0), (150, 150), (150, 300), (150, 450),
        (300, 0), (300, 150), (300, 300), (300, 450), (450, 0), (450, 150), (450, 300), (450, 450)] \<and>
     set (visited s) = {0, 150, 300, 450} \<times> {0, 150, 300, 450}"
proof -
  have bs: "size_of base = (500, 500)" using assms by (simp add: size_of_def)
  have "size_of tile = pattern_size grid_geometry \<or>
      (1 \<le> fst (pattern_size grid_geometry) \<and> 1 \<le> snd (pattern_size grid_geometry))"
    by (simp add: grid_geometry_def)
  from resize_returns[OF this] obtain pat where
    pat: "resize (resample_rgba P) tile (pattern_size grid_geometry) = Inr pat" by blast
  have "size_of mask_image = size_of base \<or> (1 \<le> fst (size_of base) \<and> 1 \<le> snd (size_of base))"
    by (simp add: bs)
  from resize_returns[OF this] obtain m where
    m: "resize (resample_l P) mask_image (size_of base) = Inr m" by blast
  define s0 where "s0 = \<lparr>layer = Image_new (width base) (height base) transparent, gen = g, visited = []\<rparr>"
  from grid_rows[of "stamp P pat alpha (500, 500)" s0, OF stamp_visits]
  obtain s where s: "outer_loop (stamp P pat alpha (500, 500)) grid_geometry (500, 500) 0 s0 = Some (Inr s)"
    and v: "visited s = visited s0 @
       [(0, 0), (0, 150), (0, 300), (0, 450), (150, 0), (150, 150), (150, 300), (150, 450),
        (300, 0), (300, 150), (300, 300), (300, 450), (450, 0), (450, 150), (450, 300), (450, 450)]"
    and ls: "size_of (layer s) = size_of (layer s0)" by blast
  have l0: "size_of (layer s0) = size_of base" by (simp add: s0_def size_of_def Image_new_def)
  have sm: "size_of m = size_of base" using resize_size[OF m] .
  have "create_pattern P base tile mask_image path grid_geometry alpha g w =
      Some (Inr (base\<lparr>px := (\<lambda>x y. over_pixel (px base x y) (masked_layer_px base (layer s) m x y))\<rparr>, s,
        print (pattern_message path)
          (save (base\<lparr>px := (\<lambda>x y. over_pixel (px base x y) (masked_layer_px base (layer s) m x y))\<rparr>) path w)))"
    using pat m s[unfolded s0_def] bs
    by (simp add: create_pattern_def pattern_pipeline_def Let_def
        composite_transparent[OF ls[unfolded l0] sm] alpha_composite_def same_size_def)
  moreover have "visited s =
       [(0, 0), (0, 150), (0, 300), (0, 450), (150, 0), (150, 150), (150, 300), (150, 450),
        (300, 0), (300, 150), (300, 300), (300, 450), (450, 0), (450, 150), (450, 300), (450, 450)]"
    using v by (simp add: s0_def)
  moreover from this have "set (visited s) = {0, 150, 300, 450} \<times> {0, 150, 300, 450}"
    by auto
  ultimately show ?thesis by blast
qed

theorem grid_coverage_witness:
  "\<exists>out s w'. create_pattern pil_plain (Image_new 500 500 transparent) (dot (RGBA 1 2 3 255))
       (dot 255) ''out.png'' grid_geometry (1 / 2) zeros empty_world = Some (Inr (out, s, w')) \<and>
     visited s =
       [(0, 0), (0, 150), (0, 300), (0, 450), (150, 0), (150, 150), (150, 300), (150, 450),
        (300, 0), (300, 150), (300, 300), (300, 450), (450, 0), (450, 150), (450, 300), (450, 450)]"
proof -
  have "width (Image_new 500 500 transparent) = 500" "height (Image_new 500 500 transparent) = 500"
    by (simp_all add: Image_new_def)
  from grid_coverage [OF this, of pil_plain "dot (RGBA 1 2 3 255)" "dot 255" "''out.png''" "1 / 2"
      zeros empty_world]
  show ?thesis by blast
qed

text \<open>
  C8 (as amended).  \<^verbatim>\<open>apply_texture\<close> does not mutate its input buffers: every image object
  that exists before the call has the same contents after it, and the returned buffer is
  a new object, holding the composited image.  It does write: the returned buffer is saved
  at \<^verbatim>\<open>output_path\<close> (no other path changes) and one line is printed.
\<close>

theorem apply_texture_effects:
  assumes "base_image < rgba_next st" and "texture_image < rgba_next st"
    and "mask_image < l_next st"
    and "apply_texture_store P base_image texture_image mask_image path alpha (st, w)
           = Inr (r, st', w')"
  shows "(\<forall>a < rgba_next st. rgba_objs st' a = rgba_objs st a) \<and>
    (\<forall>a < l_next st. l_objs st' a = l_objs st a) \<and>
    rgba_next st \<le> r \<and>
    files w' = (files w)(path \<mapsto> rgba_objs st' r) \<and>
    stdout w' = stdout w @ [texture_message path] \<and>
    apply_texture P (rgba_objs st base_image) (rgba_objs st texture_image) (l_objs st mask_image)
      path alpha w = Inr (rgba_objs st' r, w')"
proof -
  from apply_texture_store_spec[OF assms(4) assms(1-3)]
  have g: "grows st st'" and r: "rgba_next st \<le> r"
    and w': "w' = print (texture_message path) (save (rgba_objs st' r) path w)"
    and p: "apply_texture P (rgba_objs st base_image) (rgba_objs st texture_image)
      (l_objs st mask_image) path alpha w = Inr (rgba_objs st' r, w')" by simp_all
  from g have "(\<forall>a < rgba_next st. rgba_objs st' a = rgba_objs st a) \<and>
    (\<forall>a < l_next st. l_objs st' a = l_objs st a)" by (simp add: grows_def)
  moreover have "files w' = (files w)(path \<mapsto> rgba_objs st' r)"
    "stdout w' = stdout w @ [texture_message path]"
    by (simp_all add: w' print_def save_def)
  ultimately show ?thesis using r p by simp
qed

theorem apply_texture_effects_witness:
  "\<exists>r st' w'. apply_texture_store pil_plain 0 1 0 ''out.png'' (1 / 2) (two_dots, empty_world)
       = Inr (r, st', w') \<and>
     rgba_objs st' 0 = rgba_objs two_dots 0 \<and> rgba_objs st' 1 = rgba_objs two_dots 1 \<and>
     l_objs st' 0 = l_objs two_dots 0 \<and> 2 \<le> r \<and>
     files w' ''out.png'' = Some (rgba_objs st' r) \<and>
     stdout w' = [texture_message ''out.png'']"
proof -
  have live: "0 < rgba_next two_dots" "1 < rgba_next two_dots" "0 < l_next two_dots"
    by (simp_all add: two_dots_def)
  have "\<exists>r st' w'. apply_texture_store pil_plain 0 1 0 ''out.png'' (1 / 2) (two_dots, empty_world)
       = Inr (r, st', w')"
    by (rule apply_texture_store_returns[OF live]) (simp_all add: two_dots_def dot_def Image_new_def)
  then obtain r st' w' where
    run: "apply_texture_store pil_plain 0 1 0 ''out.png'' (1 / 2) (two_dots, empty_world)
       = Inr (r, st', w')" by blast
  from apply_texture_effects[OF live run]
  have "rgba_objs st' 0 = rgba_objs two_dots 0 \<and> rgba_objs st' 1 = rgba_objs two_dots 1 \<and>
     l_objs st' 0 = l_objs two_dots 0 \<and> 2 \<le> r \<and>
     files w' ''out.png'' = Some (rgba_objs st' r) \<and>
     stdout w' = [texture_message ''out.png'']"
    by (simp add: two_dots_def empty_world_def)
  with run show ?thesis by blast
qed

theorem apply_texture_writes_counterexample:
  "\<not> isl (apply_texture_store pil_plain 0 1 0 ''out.png'' (1 / 2) (two_dots, empty_world)) \<and>
   files (snd (snd (projr (apply_texture_store pil_plain 0 1 0 ''out.png'' (1 / 2)
                              (two_dots, empty_world))))) ''out.png''
     \<noteq> files empty_world ''out.png''"
proof -
  have live: "0 < rgba_next two_dots" "1 < rgba_next two_dots" "0 < l_next two_dots"
    by (simp_all add: two_dots_def)
  have "\<exists>r st' w'. apply_texture_store pil_plain 0 1 0 ''out.png'' (1 / 2) (two_dots, empty_world)
       = Inr (r, st', w')"
    by (rule apply_texture_store_returns[OF live]) (simp_all add: two_dots_def dot_def Image_new_def)
  then obtain r st' w' where
    run: "apply_texture_store pil_plain 0 1 0 ''out.png'' (1 / 2) (two_dots, empty_world)
       = Inr (r, st', w')" by blast
  from apply_texture_store_spec[OF run live]
  have "w' = print (texture_message ''out.png'') (save (rgba_objs st' r) ''out.png'' empty_world)"
    by simp
  then have "files w' ''out.png'' \<noteq> files empty_world ''out.png''"
    by (simp add: print_def save_def empty_world_def)
  then show ?thesis unfolding run by simp
qed

end
